theory Spec2Isabelle
  imports Complex_Main "HOL-Library.AList" "HOL-Library.Word"
begin

section \<open>Data model of the consistency checks\<close>

text \<open>
  \<^verbatim>\<open>feed.go\<close> compares distances of Go type \<^verbatim>\<open>float32\<close>, starts its running value at
  \<^verbatim>\<open>float32(math.Inf(-1))\<close> and stores the constant 0. It does no arithmetic on them.
  The model keeps the values the comparison tells apart: both infinities, the finite
  values, embedded in the reals (every finite \<^verbatim>\<open>float32\<close> is a rational; the comparison of
  two of them is the comparison of the rationals), and NaN, which a distance column can
  hold as well.
\<close>

datatype float32 = NegInf | Fin real | PosInf | NaN

text \<open>
  The Go comparison \<^verbatim>\<open>a > b\<close> on these values. It is false whenever one of the two is NaN.
\<close>

fun f32_gt :: "float32 \<Rightarrow> float32 \<Rightarrow> bool" where
  "f32_gt NaN _ = False"
| "f32_gt NegInf _ = False"
| "f32_gt (Fin a) NegInf = True"
| "f32_gt (Fin a) (Fin b) = (b < a)"
| "f32_gt (Fin a) PosInf = False"
| "f32_gt (Fin a) NaN = False"
| "f32_gt PosInf NegInf = True"
| "f32_gt PosInf (Fin b) = True"
| "f32_gt PosInf PosInf = False"
| "f32_gt PosInf NaN = False"

text \<open>
  Modelled from the spec: the type \<^verbatim>\<open>gtfs.ShapePoint\<close> is not among the sources. The fields
  are the ones \<^verbatim>\<open>checkShapeMeasure\<close> reads and writes; the record is extensible, and the
  checks are defined on every extension of it, so that whatever else a point carries
  (its coordinates) is carried along untouched.
\<close>

record ShapePoint =
  Sequence :: int
  Dist_traveled :: float32
  Has_dist :: bool

text \<open>
  Modelled from the spec: the method \<^verbatim>\<open>HasDistanceTraveled\<close> of a shape point, the spec's
  "has distance" flag.
\<close>

definition ShapePoint_HasDistanceTraveled :: "'a ShapePoint_scheme \<Rightarrow> bool" where
  "ShapePoint_HasDistanceTraveled p = ShapePoint.Has_dist p"

text \<open>
  Modelled from the spec: the type \<^verbatim>\<open>gtfs.Time\<close> is not among the sources; the check uses
  its two observers \<^verbatim>\<open>Empty()\<close> and \<^verbatim>\<open>SecondsSinceMidnight()\<close>, which are the fields here.
\<close>

record Time =
  Empty :: bool
  SecondsSinceMidnight :: int

text \<open>
  Modelled from the spec: the type \<^verbatim>\<open>gtfs.StopTime\<close> is not among the sources. The fields
  are the ones \<^verbatim>\<open>checkStopTimeMeasure\<close> reads and writes.
\<close>

record StopTime =
  Arrival_time :: Time
  Departure_time :: Time
  Sequence :: int
  Shape_dist_traveled :: float32
  Has_dist :: bool

definition StopTime_HasDistanceTraveled :: "'a StopTime_scheme \<Rightarrow> bool" where
  "StopTime_HasDistanceTraveled s = StopTime.Has_dist s"

record ParseOptions =
  UseDefValueOnError :: bool
  DropErroneous :: bool
  DryRun :: bool

text \<open>
  The error values of \<^verbatim>\<open>feed.go\<close>. \<^verbatim>\<open>ErrorString\<close> is \<^verbatim>\<open>errors.New\<close> of a message,
  \<^verbatim>\<open>ParseError\<close> the struct of file name, line and message. The three messages that the
  checks build with \<^verbatim>\<open>fmt.Sprintf\<close> are kept as the format's arguments: the id of the shape
  or trip, the sequence number, and the two distances.
\<close>

datatype error =
  ErrorString string
| ParseError string nat string
| ShapeMeasureError string int float32 float32
| StopTimeOrderError string int
| StopTimeMeasureError string int float32 float32

text \<open>
  A Go function either returns its \<^verbatim>\<open>error\<close> (possibly \<^verbatim>\<open>nil\<close>) or panics. The checks
  are called by \<^verbatim>\<open>Parse\<close> outside of every \<^verbatim>\<open>recover\<close>, so a panic in them ends the program.
\<close>

datatype outcome = Return "error option" | Panic string

definition index_out_of_range :: string where
  "index_out_of_range = ''runtime error: index out of range''"

text \<open>Indexing a slice with a Go \<^verbatim>\<open>int\<close>: \<open>None\<close> is the panic of an index out of range.\<close>

definition slice_at :: "'a list \<Rightarrow> int \<Rightarrow> 'a option" where
  "slice_at xs i = (if 0 \<le> i \<and> i < int (length xs) then Some (xs ! nat i) else None)"

text \<open>
  \<^verbatim>\<open>xs[:i+copy(xs[i:], xs[i+1:])]\<close>: the elements behind position \<open>i\<close> move one place
  down and the slice gets one shorter.
\<close>

definition remove_at :: "'a list \<Rightarrow> nat \<Rightarrow> 'a list" where
  "remove_at xs i = take i xs @ drop (Suc i) xs"

section \<open>The shape check\<close>

text \<open>
  The loop of \<^verbatim>\<open>checkShapeMeasure\<close>, with its variables \<open>j\<close>, \<open>deleted\<close> and \<open>max\<close> and
  the slice \<^verbatim>\<open>shape.Points\<close> as arguments. The bound \<^verbatim>\<open>len(shape.Points)\<close> is read again
  at every round. The slice comes back with the outcome because the function changes
  the shape in place, also when it ends with an error.
\<close>

function checkShapeMeasure_loop ::
  "string \<Rightarrow> 'o ParseOptions_scheme \<Rightarrow> nat \<Rightarrow> nat \<Rightarrow> float32 \<Rightarrow> 'a ShapePoint_scheme list
    \<Rightarrow> 'a ShapePoint_scheme list \<times> outcome" where
  "checkShapeMeasure_loop sid opt j deleted mx pts =
     (if j < length pts then
        (let i = int j - int deleted in
         case slice_at pts (i - 1) of
           None \<Rightarrow> (pts, Panic index_out_of_range)
         | Some prev \<Rightarrow>
             (let mx' = (if ShapePoint_HasDistanceTraveled prev
                         then ShapePoint.Dist_traveled prev else mx) in
              case slice_at pts i of
                None \<Rightarrow> (pts, Panic index_out_of_range)
              | Some cur \<Rightarrow>
                  if ShapePoint_HasDistanceTraveled cur
                     \<and> f32_gt mx' (ShapePoint.Dist_traveled cur) then
                    if UseDefValueOnError opt then
                      checkShapeMeasure_loop sid opt (Suc j) deleted mx'
                        (pts[nat i := cur\<lparr>ShapePoint.Dist_traveled := Fin 0,
                                          ShapePoint.Has_dist := False\<rparr>])
                    else if DropErroneous opt then
                      checkShapeMeasure_loop sid opt (Suc j) (Suc deleted) mx'
                        (remove_at pts (nat i))
                    else
                      (pts, Return (Some (ShapeMeasureError sid (ShapePoint.Sequence cur)
                                            mx' (ShapePoint.Dist_traveled cur))))
                  else checkShapeMeasure_loop sid opt (Suc j) deleted mx' pts))
      else (pts, Return None))"
  by pat_completeness auto
termination
  by (relation "measure (\<lambda>(sid, opt, j, deleted, mx, pts). length pts - j)")
     (auto simp: remove_at_def slice_at_def split: if_splits)

declare checkShapeMeasure_loop.simps [simp del]

definition checkShapeMeasure ::
  "string \<Rightarrow> 'a ShapePoint_scheme list \<Rightarrow> 'o ParseOptions_scheme
    \<Rightarrow> 'a ShapePoint_scheme list \<times> outcome" where
  "checkShapeMeasure sid pts opt = checkShapeMeasure_loop sid opt 1 0 NegInf pts"

section \<open>The stop-time check\<close>

text \<open>
  The first statement of the loop body of \<^verbatim>\<open>checkStopTimeMeasure\<close>, the temporal test at
  position \<open>i\<close>. The operands of \<^verbatim>\<open>&&\<close> are evaluated from the left and only as far as
  needed, so \<^verbatim>\<open>StopTimes[i]\<close> is read only when the departure before it is present.
  \<open>Inl\<close> ends the function (an error is returned, or an index is out of range);
  \<open>Inr\<close> goes on with the slice and the counter \<open>deleted\<close> as the statement leaves them.
\<close>

definition checkStopTimeMeasure_order ::
  "string \<Rightarrow> 'o ParseOptions_scheme \<Rightarrow> int \<Rightarrow> nat \<Rightarrow> 'a StopTime_scheme list
    \<Rightarrow> ('a StopTime_scheme list \<times> outcome) + ('a StopTime_scheme list \<times> nat)" where
  "checkStopTimeMeasure_order tid opt i deleted sts =
     (case slice_at sts (i - 1) of
        None \<Rightarrow> Inl (sts, Panic index_out_of_range)
      | Some prev \<Rightarrow>
          if Empty (Departure_time prev) then Inr (sts, deleted)
          else
            (case slice_at sts i of
               None \<Rightarrow> Inl (sts, Panic index_out_of_range)
             | Some cur \<Rightarrow>
                 if \<not> Empty (Arrival_time cur)
                    \<and> SecondsSinceMidnight (Departure_time prev)
                        > SecondsSinceMidnight (Arrival_time cur) then
                   if DropErroneous opt then Inr (remove_at sts (nat i), Suc deleted)
                   else Inl (sts, Return (Some (StopTimeOrderError tid (StopTime.Sequence cur))))
                 else Inr (sts, deleted)))"

lemma checkStopTimeMeasure_order_length:
  "checkStopTimeMeasure_order tid opt i deleted sts = Inr (sts1, deleted1)
    \<Longrightarrow> length sts \<le> Suc (length sts1) \<and> length sts1 \<le> length sts"
  by (auto simp: checkStopTimeMeasure_order_def remove_at_def slice_at_def
           split: option.splits if_splits)

text \<open>
  The loop of \<^verbatim>\<open>checkStopTimeMeasure\<close>: the temporal test, then the distance test on the
  slice as the temporal test left it, at the same position \<open>i\<close>.
\<close>

function checkStopTimeMeasure_loop ::
  "string \<Rightarrow> 'o ParseOptions_scheme \<Rightarrow> nat \<Rightarrow> nat \<Rightarrow> float32 \<Rightarrow> 'a StopTime_scheme list
    \<Rightarrow> 'a StopTime_scheme list \<times> outcome" where
  "checkStopTimeMeasure_loop tid opt j deleted mx sts =
     (if j < length sts then
        (let i = int j - int deleted in
         case checkStopTimeMeasure_order tid opt i deleted sts of
           Inl r \<Rightarrow> r
         | Inr (sts1, deleted1) \<Rightarrow>
             (case slice_at sts1 (i - 1) of
                None \<Rightarrow> (sts1, Panic index_out_of_range)
              | Some prev \<Rightarrow>
                  (let mx' = (if StopTime_HasDistanceTraveled prev
                              then Shape_dist_traveled prev else mx) in
                   case slice_at sts1 i of
                     None \<Rightarrow> (sts1, Panic index_out_of_range)
                   | Some cur \<Rightarrow>
                       if StopTime_HasDistanceTraveled cur
                          \<and> f32_gt mx' (Shape_dist_traveled cur) then
                         if UseDefValueOnError opt then
                           checkStopTimeMeasure_loop tid opt (Suc j) deleted1 mx'
                             (sts1[nat i := cur\<lparr>Shape_dist_traveled := Fin 0,
                                                StopTime.Has_dist := False\<rparr>])
                         else if DropErroneous opt then
                           checkStopTimeMeasure_loop tid opt (Suc j) (Suc deleted1) mx'
                             (remove_at sts1 (nat i))
                         else
                           (sts1, Return (Some (StopTimeMeasureError tid (StopTime.Sequence cur)
                                                  mx' (Shape_dist_traveled cur))))
                       else checkStopTimeMeasure_loop tid opt (Suc j) deleted1 mx' sts1)))
      else (sts, Return None))"
  by pat_completeness auto
termination
proof (relation "measure (\<lambda>(tid, opt, j, deleted, mx, sts). length sts - j)", goal_cases)
  case 1
  show ?case by simp
next
  case (2 tid opt j deleted mx sts i r sts1 deleted1 prev mx' cur)
  from 2 checkStopTimeMeasure_order_length [of tid opt i deleted sts sts1 deleted1]
  show ?case by auto
next
  case (3 tid opt j deleted mx sts i r sts1 deleted1 prev mx' cur)
  from 3 checkStopTimeMeasure_order_length [of tid opt i deleted sts sts1 deleted1]
  show ?case by (auto simp: remove_at_def)
next
  case (4 tid opt j deleted mx sts i r sts1 deleted1 prev mx' cur)
  from 4 checkStopTimeMeasure_order_length [of tid opt i deleted sts sts1 deleted1]
  show ?case by auto
qed

declare checkStopTimeMeasure_loop.simps [simp del]

definition checkStopTimeMeasure ::
  "string \<Rightarrow> 'a StopTime_scheme list \<Rightarrow> 'o ParseOptions_scheme
    \<Rightarrow> 'a StopTime_scheme list \<times> outcome" where
  "checkStopTimeMeasure tid sts opt = checkStopTimeMeasure_loop tid opt 1 0 NegInf sts"

section \<open>What Parse reads\<close>

text \<open>
  Modelled from the spec: the Record Reader (\<^verbatim>\<open>NewCsvParser\<close>, \<^verbatim>\<open>ParseRecord\<close>, \<^verbatim>\<open>Curline\<close>) is
  not among the sources. A call of \<^verbatim>\<open>ParseRecord\<close> yields the next record as a field map,
  or \<^verbatim>\<open>nil\<close> at the end of the input, or panics on malformed input. A file is the
  sequence of what the calls yield, each with the value \<^verbatim>\<open>Curline\<close> has then, and the
  value \<^verbatim>\<open>Curline\<close> has once the end is reached.
\<close>

type_synonym csv_record = "string \<rightharpoonup> string"

datatype csv_line = Row csv_record | Malformed string

record csv_file =
  Lines :: "(nat \<times> csv_line) list"
  End_line :: nat

text \<open>
  What \<^verbatim>\<open>getFile\<close> finds at the path: nothing (\<^verbatim>\<open>os.Stat\<close> fails), a directory (a file name
  opens or does not), a file that \<^verbatim>\<open>zip.OpenReader\<close> rejects, or an archive, whose
  entries are searched in order for the name and whose entry may fail to open. The
  handles \<^verbatim>\<open>zipFileCloser\<close> and \<^verbatim>\<open>curFileHandle\<close> of the feed are not modelled: what is
  at the path does not change during a parse.
\<close>

datatype location =
  NoSuchPath
| Directory "string \<rightharpoonup> csv_file"
| BadArchive
| Archive "(string \<times> csv_file option) list"

fun getFile :: "location \<Rightarrow> string \<Rightarrow> csv_file option" where
  "getFile NoSuchPath name = None"
| "getFile (Directory files) name = files name"
| "getFile BadArchive name = None"
| "getFile (Archive entries) name =
     (case find (\<lambda>f. fst f = name) entries of Some f \<Rightarrow> snd f | None \<Rightarrow> None)"

section \<open>The entities\<close>

text \<open>
  Modelled from the spec: of the entity types only \<^verbatim>\<open>gtfs.Trip\<close> and \<^verbatim>\<open>gtfs.FeedInfo\<close> are
  among the sources. The others are records of the fields \<^verbatim>\<open>feed.go\<close> touches; their
  other fields are the extension of the record, of one type \<open>'x\<close> for all kinds.
  A pointer to an entity is the key of the slot that holds the entity in the table of
  its kind, \<open>None\<close> for \<^verbatim>\<open>nil\<close>.
\<close>

record Agency =
  Id :: string

record Stop =
  Id :: string
  Parent_station :: "string option"

record Route =
  Id :: string

record Service =
  Id :: string

record FareAttribute =
  Id :: string

record Transfer =
  From_stop :: "string option"
  To_stop :: "string option"

record 'x Shape =
  Id :: string
  Points :: "'x ShapePoint_scheme list"

typedecl Frequency

typedecl Date

record 'x Trip =
  Id :: string
  Route :: "string option"
  Service :: "string option"
  Headsign :: string
  Short_name :: string
  Direction_id :: "8 word"
  Block_id :: string
  Shape :: "string option"
  Wheelchair_accessible :: "8 word"
  Bikes_allowed :: "8 word"
  StopTimes :: "'x StopTime_scheme list"
  Frequencies :: "Frequency list"

record FeedInfo =
  Publisher_name :: string
  Publisher_url :: "string option"
  Lang :: string
  Start_date :: Date
  End_date :: Date
  Phone :: string
  Version :: string

text \<open>
  A Go \<^verbatim>\<open>map[string]*T\<close>: the keys in the order of their first insertion (Go fixes no
  order), each with its pointer, \<open>None\<close> for a \<^verbatim>\<open>nil\<close> stored under the key.
\<close>

type_synonym 'v go_map = "(string \<times> 'v option) list"

record 'x Feed =
  Agencies :: "'x Agency_scheme go_map"
  Stops :: "'x Stop_scheme go_map"
  Routes :: "'x Route_scheme go_map"
  Trips :: "'x Trip go_map"
  Services :: "'x Service_scheme go_map"
  FareAttributes :: "'x FareAttribute_scheme go_map"
  Shapes :: "('x, 'x) Shape_scheme go_map"
  Transfers :: "'x Transfer_scheme list"
  FeedInfos :: "FeedInfo list"
  opts :: ParseOptions

definition NewFeed :: "'x Feed" where
  "NewFeed =
     \<lparr>Agencies = [], Stops = [], Routes = [], Trips = [], Services = [],
      FareAttributes = [], Shapes = [], Transfers = [], FeedInfos = [],
      opts = \<lparr>UseDefValueOnError = False, DropErroneous = False, DryRun = False\<rparr>\<rparr>"

definition SetParseOpts :: "'x Feed \<Rightarrow> ParseOptions \<Rightarrow> 'x Feed" where
  "SetParseOpts feed options = feed\<lparr>opts := options\<rparr>"

section \<open>The materializers\<close>

text \<open>
  Modelled from the spec: the functions \<^verbatim>\<open>createAgency\<close>, \<^verbatim>\<open>createStop\<close> and so on are not
  among the sources; they are parameters of the model. A materializer gets the record, the
  tables \<^verbatim>\<open>feed.go\<close> passes to it and the options, and yields an entity or the message of
  its error. One that returns only an error works on a table in place: it yields the
  table as it leaves it. \<^verbatim>\<open>createServiceFromCalendar\<close> and \<^verbatim>\<open>createServiceFromCalendarDates\<close> do
  both: they return \<^verbatim>\<open>nil\<close> for a service they have changed in place.

  The same holds of the orderings of the slice types \<^verbatim>\<open>gtfs.ShapePoints\<close> and
  \<^verbatim>\<open>gtfs.StopTimes\<close>, which \<^verbatim>\<open>Parse\<close> hands to \<^verbatim>\<open>sort.Sort\<close>: their \<^verbatim>\<open>Len\<close>, \<^verbatim>\<open>Less\<close> and \<^verbatim>\<open>Swap\<close> are
  not among the sources, and \<^verbatim>\<open>sort.Sort\<close> is not stable, so that where it puts two elements
  that \<^verbatim>\<open>Less\<close> does not tell apart is up to the runtime. The arrangement \<^verbatim>\<open>sort.Sort\<close>
  leaves a slice in is the parameter \<open>sortShapePoints\<close>, respectively \<open>sortStopTimes\<close>.
\<close>

record 'x materializers =
  createAgency :: "csv_record \<Rightarrow> ParseOptions \<Rightarrow> string + 'x Agency_scheme"
  createStop :: "csv_record \<Rightarrow> ParseOptions \<Rightarrow> string + 'x Stop_scheme"
  createRoute ::
    "csv_record \<Rightarrow> 'x Agency_scheme go_map \<Rightarrow> ParseOptions \<Rightarrow> string + 'x Route_scheme"
  createServiceFromCalendar ::
    "csv_record \<Rightarrow> 'x Service_scheme go_map \<Rightarrow> ParseOptions
      \<Rightarrow> 'x Service_scheme go_map \<times> (string + 'x Service_scheme option)"
  createServiceFromCalendarDates ::
    "csv_record \<Rightarrow> 'x Service_scheme go_map
      \<Rightarrow> 'x Service_scheme go_map \<times> (string + 'x Service_scheme option)"
  createTrip ::
    "csv_record \<Rightarrow> 'x Route_scheme go_map \<Rightarrow> 'x Service_scheme go_map
      \<Rightarrow> ('x, 'x) Shape_scheme go_map \<Rightarrow> ParseOptions \<Rightarrow> string + 'x Trip"
  createShapePoint ::
    "csv_record \<Rightarrow> ('x, 'x) Shape_scheme go_map \<Rightarrow> ParseOptions
      \<Rightarrow> ('x, 'x) Shape_scheme go_map \<times> string option"
  createStopTime ::
    "csv_record \<Rightarrow> 'x Stop_scheme go_map \<Rightarrow> 'x Trip go_map \<Rightarrow> ParseOptions
      \<Rightarrow> 'x Trip go_map \<times> string option"
  createFrequency ::
    "csv_record \<Rightarrow> 'x Trip go_map \<Rightarrow> ParseOptions \<Rightarrow> 'x Trip go_map \<times> string option"
  createFareAttribute :: "csv_record \<Rightarrow> ParseOptions \<Rightarrow> string + 'x FareAttribute_scheme"
  createFareRule ::
    "csv_record \<Rightarrow> 'x FareAttribute_scheme go_map \<Rightarrow> 'x Route_scheme go_map
      \<Rightarrow> 'x FareAttribute_scheme go_map \<times> string option"
  createTransfer ::
    "csv_record \<Rightarrow> 'x Stop_scheme go_map \<Rightarrow> ParseOptions \<Rightarrow> string + 'x Transfer_scheme"
  createFeedInfo :: "csv_record \<Rightarrow> ParseOptions \<Rightarrow> string + FeedInfo"
  sortShapePoints :: "'x ShapePoint_scheme list \<Rightarrow> 'x ShapePoint_scheme list"
  sortStopTimes :: "'x StopTime_scheme list \<Rightarrow> 'x StopTime_scheme list"

section \<open>The parsing stages\<close>

text \<open>
  The loop every stage runs over its file:
  \<^verbatim>\<open>for record = reader.ParseRecord(); record != nil; record = reader.ParseRecord()\<close>.
  The body is the stage's; it yields the state it leaves and the message of the
  materializer's error if there is one. On an error the loop goes on with the next record
  when \<^verbatim>\<open>DropErroneous\<close> is set and panics otherwise; a malformed line is a panic of the
  reader. A panic comes back as the line and the message, with the state as it is then:
  what has been stored stays stored.
\<close>

fun for_each_record ::
  "('s \<Rightarrow> csv_record \<Rightarrow> 's \<times> string option) \<Rightarrow> bool \<Rightarrow> (nat \<times> csv_line) list \<Rightarrow> 's
    \<Rightarrow> 's \<times> (nat \<times> string) option" where
  "for_each_record body dropping [] s = (s, None)"
| "for_each_record body dropping ((n, Malformed msg) # rest) s = (s, Some (n, msg))"
| "for_each_record body dropping ((n, Row rec) # rest) s =
     (case body s rec of
        (s', None) \<Rightarrow> for_each_record body dropping rest s'
      | (s', Some msg) \<Rightarrow>
          if dropping then for_each_record body dropping rest s' else (s', Some (n, msg)))"

text \<open>
  The deferred function of every stage: a panic is recovered and returned as a
  \<^verbatim>\<open>ParseError\<close> of the stage's file name, \<^verbatim>\<open>reader.Curline\<close> and the message.
\<close>

definition recovered :: "string \<Rightarrow> (nat \<times> string) option \<Rightarrow> error option" where
  "recovered file p = (case p of None \<Rightarrow> None | Some (n, msg) \<Rightarrow> Some (ParseError file n msg))"

text \<open>
  What the stages have in common (\<^verbatim>\<open>parseStops\<close> has a second loop and is written out
  below): \<^verbatim>\<open>getFile\<close>; when the file does not open, the return of \<open>absent\<close>, which is an
  error in the stages that insist on their file and \<^verbatim>\<open>nil\<close> in the others; the reader, the
  deferred function, and the loop over the records with the body of the stage.
\<close>

definition parse_file ::
  "string \<Rightarrow> error option \<Rightarrow> ('x Feed \<Rightarrow> csv_record \<Rightarrow> 'x Feed \<times> string option)
    \<Rightarrow> location \<Rightarrow> 'x Feed \<Rightarrow> 'x Feed \<times> error option" where
  "parse_file name absent body loc feed =
     (case getFile loc name of
        None \<Rightarrow> (feed, absent)
      | Some file \<Rightarrow>
          (case for_each_record body (DropErroneous (opts feed)) (Lines file) feed of
             (feed', p) \<Rightarrow> (feed', recovered name p)))"

definition parseAgencies ::
  "'x materializers \<Rightarrow> location \<Rightarrow> 'x Feed \<Rightarrow> 'x Feed \<times> error option" where
  "parseAgencies M =
     parse_file ''agency.txt'' (Some (ErrorString ''Could not open required file agency.txt''))
       (\<lambda>feed rec.
          case createAgency M rec (opts feed) of
            Inl e \<Rightarrow> (feed, Some e)
          | Inr agency \<Rightarrow>
              (feed\<lparr>Agencies :=
                 AList.update (Agency.Id agency) (Some agency) (Agencies feed)\<rparr>, None))"

definition nil_dereference :: string where
  "nil_dereference = ''runtime error: invalid memory address or nil pointer dereference''"

definition no_station_message :: "string \<Rightarrow> string \<Rightarrow> string" where
  "no_station_message stop_id pid =
     ''(for stop id '' @ stop_id @ '') No station with id '' @ pid
       @ '' found, cannot use as parent station here.''"

text \<open>
  \<^verbatim>\<open>feed.Stops[id].Parent_station = pstop\<close>: the read of a key that is absent, or that holds
  \<^verbatim>\<open>nil\<close>, yields \<^verbatim>\<open>nil\<close>, and the assignment through it panics (\<open>None\<close>).
\<close>

definition set_Parent_station ::
  "string \<Rightarrow> string option \<Rightarrow> 'x Stop_scheme go_map \<Rightarrow> 'x Stop_scheme go_map option" where
  "set_Parent_station stop_id pstop stops =
     (case map_of stops stop_id of
        Some (Some stop) \<Rightarrow> Some (AList.update stop_id (Some (stop\<lparr>Parent_station := pstop\<rparr>)) stops)
      | _ \<Rightarrow> None)"

text \<open>
  The second loop of \<^verbatim>\<open>parseStops\<close>, over the pairs of \<^verbatim>\<open>parentStopIds\<close> in the order the
  runtime yields them. \<open>found\<close> is the pair \<^verbatim>\<open>pstop, ok\<close>.
\<close>

fun link_parent_stations ::
  "ParseOptions \<Rightarrow> (string \<times> string) list \<Rightarrow> 'x Stop_scheme go_map
    \<Rightarrow> 'x Stop_scheme go_map \<times> string option" where
  "link_parent_stations opt [] stops = (stops, None)"
| "link_parent_stations opt ((stop_id, pid) # rest) stops =
     (let found = map_of stops pid in
      if found = None \<and> UseDefValueOnError opt then link_parent_stations opt rest stops
      else if found = None \<and> \<not> DropErroneous opt then
        (stops, Some (no_station_message stop_id pid))
      else
        (let stops1 = (if found = None then AList.delete stop_id stops else stops);
             pstop = (case found of Some (Some p) \<Rightarrow> Some pid | _ \<Rightarrow> None) in
         case set_Parent_station stop_id pstop stops1 of
           None \<Rightarrow> (stops1, Some nil_dereference)
         | Some stops2 \<Rightarrow> link_parent_stations opt rest stops2))"

text \<open>
  \<^verbatim>\<open>range\<close> over a Go map yields every key once, in an order the runtime chooses: the
  parameter \<open>ord\<close> of the model, which gets the keys and yields them in that order.
\<close>

definition range_map :: "(string list \<Rightarrow> string list) \<Rightarrow> (string \<times> 'v) list \<Rightarrow> (string \<times> 'v) list" where
  "range_map ord m = List.map_filter (\<lambda>k. map_option (Pair k) (map_of m k)) (ord (map fst m))"

definition parseStops ::
  "'x materializers \<Rightarrow> (string list \<Rightarrow> string list) \<Rightarrow> location \<Rightarrow> 'x Feed
    \<Rightarrow> 'x Feed \<times> error option" where
  "parseStops M ord loc feed =
     (case getFile loc ''stops.txt'' of
        None \<Rightarrow> (feed, Some (ErrorString ''Could not open required file stops.txt''))
      | Some file \<Rightarrow>
          (case for_each_record
                  (\<lambda>(feed, parentStopIds) rec.
                     case createStop M rec (opts feed) of
                       Inl e \<Rightarrow> ((feed, parentStopIds), Some e)
                     | Inr stop \<Rightarrow>
                         ((feed\<lparr>Stops := AList.update (Stop.Id stop) (Some stop) (Stops feed)\<rparr>,
                           (case rec ''parent_station'' of
                              Some v \<Rightarrow>
                                if length v > 0 then AList.update (Stop.Id stop) v parentStopIds
                                else parentStopIds
                            | None \<Rightarrow> parentStopIds)), None))
                  (DropErroneous (opts feed)) (Lines file) (feed, []) of
             ((feed', parentStopIds), Some p) \<Rightarrow> (feed', recovered ''stops.txt'' (Some p))
           | ((feed', parentStopIds), None) \<Rightarrow>
               (case link_parent_stations (opts feed') (range_map ord parentStopIds) (Stops feed') of
                  (stops, None) \<Rightarrow> (feed'\<lparr>Stops := stops\<rparr>, None)
                | (stops, Some msg) \<Rightarrow>
                    (feed'\<lparr>Stops := stops\<rparr>,
                     recovered ''stops.txt'' (Some (End_line file, msg))))))"

definition parseRoutes ::
  "'x materializers \<Rightarrow> location \<Rightarrow> 'x Feed \<Rightarrow> 'x Feed \<times> error option" where
  "parseRoutes M =
     parse_file ''routes.txt'' (Some (ErrorString ''Could not open required file routes.txt''))
       (\<lambda>feed rec.
          case createRoute M rec (Agencies feed) (opts feed) of
            Inl e \<Rightarrow> (feed, Some e)
          | Inr route \<Rightarrow>
              (feed\<lparr>Routes :=
                 AList.update (Route.Id route)
                   (if DryRun (opts feed) then None else Some route) (Routes feed)\<rparr>,
               None))"

text \<open>
  The body shared by \<^verbatim>\<open>parseCalendar\<close> and \<^verbatim>\<open>parseCalendarDates\<close>, from what the materializer
  returns: the table as it leaves it, and the service or the error.
\<close>

definition store_service ::
  "'x Feed \<Rightarrow> 'x Service_scheme go_map \<times> (string + 'x Service_scheme option)
    \<Rightarrow> 'x Feed \<times> string option" where
  "store_service feed created =
     (case created of
        (services, Inl e) \<Rightarrow> (feed\<lparr>Services := services\<rparr>, Some e)
      | (services, Inr None) \<Rightarrow> (feed\<lparr>Services := services\<rparr>, None)
      | (services, Inr (Some service)) \<Rightarrow>
          (feed\<lparr>Services :=
             AList.update (Service.Id service)
               (if DryRun (opts feed) then None else Some service) services\<rparr>, None))"

definition parseCalendar ::
  "'x materializers \<Rightarrow> location \<Rightarrow> 'x Feed \<Rightarrow> 'x Feed \<times> error option" where
  "parseCalendar M =
     parse_file ''calendar.txt'' None
       (\<lambda>feed rec.
          store_service feed (createServiceFromCalendar M rec (Services feed) (opts feed)))"

definition parseCalendarDates ::
  "'x materializers \<Rightarrow> location \<Rightarrow> 'x Feed \<Rightarrow> 'x Feed \<times> error option" where
  "parseCalendarDates M =
     parse_file ''calendar_dates.txt'' None
       (\<lambda>feed rec.
          store_service feed (createServiceFromCalendarDates M rec (Services feed)))"

definition parseTrips ::
  "'x materializers \<Rightarrow> location \<Rightarrow> 'x Feed \<Rightarrow> 'x Feed \<times> error option" where
  "parseTrips M =
     parse_file ''trips.txt'' (Some (ErrorString ''Could not open required file trips.txt''))
       (\<lambda>feed rec.
          case createTrip M rec (Routes feed) (Services feed) (Shapes feed) (opts feed) of
            Inl e \<Rightarrow> (feed, Some e)
          | Inr trip \<Rightarrow>
              (feed\<lparr>Trips := AList.update (Trip.Id trip) (Some trip) (Trips feed)\<rparr>,
               None))"

definition parseShapes ::
  "'x materializers \<Rightarrow> location \<Rightarrow> 'x Feed \<Rightarrow> 'x Feed \<times> error option" where
  "parseShapes M =
     parse_file ''shapes.txt'' None
       (\<lambda>feed rec.
          case createShapePoint M rec (Shapes feed) (opts feed) of
            (shapes, e) \<Rightarrow> (feed\<lparr>Shapes := shapes\<rparr>, e))"

definition parseStopTimes ::
  "'x materializers \<Rightarrow> location \<Rightarrow> 'x Feed \<Rightarrow> 'x Feed \<times> error option" where
  "parseStopTimes M =
     parse_file ''stop_times.txt'' (Some (ErrorString ''Could not open required file stop_times.txt''))
       (\<lambda>feed rec.
          case createStopTime M rec (Stops feed) (Trips feed) (opts feed) of
            (trips, e) \<Rightarrow> (feed\<lparr>Trips := trips\<rparr>, e))"

definition parseFrequencies ::
  "'x materializers \<Rightarrow> location \<Rightarrow> 'x Feed \<Rightarrow> 'x Feed \<times> error option" where
  "parseFrequencies M =
     parse_file ''frequencies.txt'' None
       (\<lambda>feed rec.
          case createFrequency M rec (Trips feed) (opts feed) of
            (trips, e) \<Rightarrow> (feed\<lparr>Trips := trips\<rparr>, e))"

definition parseFareAttributes ::
  "'x materializers \<Rightarrow> location \<Rightarrow> 'x Feed \<Rightarrow> 'x Feed \<times> error option" where
  "parseFareAttributes M =
     parse_file ''fare_attributes.txt'' None
       (\<lambda>feed rec.
          case createFareAttribute M rec (opts feed) of
            Inl e \<Rightarrow> (feed, Some e)
          | Inr fa \<Rightarrow>
              (feed\<lparr>FareAttributes :=
                 AList.update (FareAttribute.Id fa) (Some fa) (FareAttributes feed)\<rparr>,
               None))"

definition parseFareAttributeRules ::
  "'x materializers \<Rightarrow> location \<Rightarrow> 'x Feed \<Rightarrow> 'x Feed \<times> error option" where
  "parseFareAttributeRules M =
     parse_file ''fare_rules.txt'' None
       (\<lambda>feed rec.
          case createFareRule M rec (FareAttributes feed) (Routes feed) of
            (fares, e) \<Rightarrow> (feed\<lparr>FareAttributes := fares\<rparr>, e))"

definition parseTransfers ::
  "'x materializers \<Rightarrow> location \<Rightarrow> 'x Feed \<Rightarrow> 'x Feed \<times> error option" where
  "parseTransfers M =
     parse_file ''transfers.txt'' None
       (\<lambda>feed rec.
          case createTransfer M rec (Stops feed) (opts feed) of
            Inl e \<Rightarrow> (feed, Some e)
          | Inr t \<Rightarrow>
              (if \<not> DryRun (opts feed)
               then feed\<lparr>Transfers := Transfers feed @ [t]\<rparr> else feed, None))"

definition parseFeedInfos ::
  "'x materializers \<Rightarrow> location \<Rightarrow> 'x Feed \<Rightarrow> 'x Feed \<times> error option" where
  "parseFeedInfos M =
     parse_file ''feed_info.txt'' None
       (\<lambda>feed rec.
          case createFeedInfo M rec (opts feed) of
            Inl e \<Rightarrow> (feed, Some e)
          | Inr fi \<Rightarrow>
              (if \<not> DryRun (opts feed)
               then feed\<lparr>FeedInfos := FeedInfos feed @ [fi]\<rparr> else feed, None))"

section \<open>Parse\<close>

text \<open>
  The loop of \<^verbatim>\<open>Parse\<close> over the shapes, in the order \<open>keys\<close> of the runtime:
  \<^verbatim>\<open>sort.Sort(shape.Points)\<close>, then the check, which works on the shape in place. A \<^verbatim>\<open>nil\<close> in
  the table makes \<^verbatim>\<open>shape.Points\<close> panic.
\<close>

fun checkShapes_loop ::
  "'x materializers \<Rightarrow> ParseOptions \<Rightarrow> string list \<Rightarrow> ('x, 'x) Shape_scheme go_map
    \<Rightarrow> ('x, 'x) Shape_scheme go_map \<times> outcome" where
  "checkShapes_loop M opt [] shapes = (shapes, Return None)"
| "checkShapes_loop M opt (k # keys) shapes =
     (case map_of shapes k of
        None \<Rightarrow> checkShapes_loop M opt keys shapes
      | Some None \<Rightarrow> (shapes, Panic nil_dereference)
      | Some (Some shape) \<Rightarrow>
          (case checkShapeMeasure (Shape.Id shape)
                  (sortShapePoints M (Points shape)) opt of
             (points, e) \<Rightarrow>
               (let shapes' = AList.update k (Some (shape\<lparr>Points := points\<rparr>)) shapes in
                if e = Return None then checkShapes_loop M opt keys shapes' else (shapes', e))))"

text \<open>
  The block of \<^verbatim>\<open>Parse\<close> behind \<^verbatim>\<open>parseShapes\<close>: the loop, and with \<^verbatim>\<open>DryRun\<close> a \<^verbatim>\<open>nil\<close>
  into every slot, whether the loop ended with an error or not.
\<close>

definition checkShapes ::
  "'x materializers \<Rightarrow> (string list \<Rightarrow> string list) \<Rightarrow> 'x Feed \<Rightarrow> 'x Feed \<times> outcome" where
  "checkShapes M ord feed =
     (case checkShapes_loop M (opts feed) (ord (map fst (Shapes feed))) (Shapes feed) of
        (shapes, Panic msg) \<Rightarrow> (feed\<lparr>Shapes := shapes\<rparr>, Panic msg)
      | (shapes, Return e) \<Rightarrow>
          (feed\<lparr>Shapes := (if DryRun (opts feed)
                            then map (\<lambda>(k, shape). (k, None)) shapes else shapes)\<rparr>,
           Return e))"

text \<open>
  The loop of \<^verbatim>\<open>Parse\<close> over the trips. With \<^verbatim>\<open>DryRun\<close> the slot of the key \<^verbatim>\<open>trip.Id\<close> gets
  \<^verbatim>\<open>nil\<close> once the trip has passed its check.
\<close>

fun checkStopTimes_loop ::
  "'x materializers \<Rightarrow> ParseOptions \<Rightarrow> string list \<Rightarrow> 'x Trip go_map
    \<Rightarrow> 'x Trip go_map \<times> outcome" where
  "checkStopTimes_loop M opt [] trips = (trips, Return None)"
| "checkStopTimes_loop M opt (k # keys) trips =
     (case map_of trips k of
        None \<Rightarrow> checkStopTimes_loop M opt keys trips
      | Some None \<Rightarrow> (trips, Panic nil_dereference)
      | Some (Some trip) \<Rightarrow>
          (case checkStopTimeMeasure (Trip.Id trip)
                  (sortStopTimes M (StopTimes trip)) opt of
             (stoptimes, e) \<Rightarrow>
               (let trips' = AList.update k (Some (trip\<lparr>StopTimes := stoptimes\<rparr>)) trips in
                if e \<noteq> Return None then (trips', e)
                else checkStopTimes_loop M opt keys
                       (if DryRun opt then AList.update (Trip.Id trip) None trips' else trips'))))"

definition checkStopTimes ::
  "'x materializers \<Rightarrow> (string list \<Rightarrow> string list) \<Rightarrow> 'x Feed \<Rightarrow> 'x Feed \<times> outcome" where
  "checkStopTimes M ord feed =
     (case checkStopTimes_loop M (opts feed) (ord (map fst (Trips feed))) (Trips feed) of
        (trips, e) \<Rightarrow> (feed\<lparr>Trips := trips\<rparr>, e))"

text \<open>
  The blocks of \<^verbatim>\<open>Parse\<close> in their order. Every block but the first is guarded by
  \<^verbatim>\<open>if e == nil\<close>.
\<close>

datatype step =
  ParseAgencies | ParseFeedInfos | ParseStops | ParseShapes | CheckShapes | ParseRoutes
| ParseCalendar | ParseCalendarDates | ParseTrips | ParseStopTimes | CheckStopTimes
| ParseFareAttributes | ParseFareAttributeRules | ParseFrequencies | ParseTransfers

definition all_steps :: "step list" where
  "all_steps =
     [ParseAgencies, ParseFeedInfos, ParseStops, ParseShapes, CheckShapes, ParseRoutes,
      ParseCalendar, ParseCalendarDates, ParseTrips, ParseStopTimes, CheckStopTimes,
      ParseFareAttributes, ParseFareAttributeRules, ParseFrequencies, ParseTransfers]"

definition returned :: "'s \<times> error option \<Rightarrow> 's \<times> outcome" where
  "returned r = (fst r, Return (snd r))"

fun run_step ::
  "'x materializers \<Rightarrow> (string list \<Rightarrow> string list) \<Rightarrow> location \<Rightarrow> step \<Rightarrow> 'x Feed
    \<Rightarrow> 'x Feed \<times> outcome" where
  "run_step M ord loc ParseAgencies feed = returned (parseAgencies M loc feed)"
| "run_step M ord loc ParseFeedInfos feed = returned (parseFeedInfos M loc feed)"
| "run_step M ord loc ParseStops feed = returned (parseStops M ord loc feed)"
| "run_step M ord loc ParseShapes feed = returned (parseShapes M loc feed)"
| "run_step M ord loc CheckShapes feed = checkShapes M ord feed"
| "run_step M ord loc ParseRoutes feed = returned (parseRoutes M loc feed)"
| "run_step M ord loc ParseCalendar feed = returned (parseCalendar M loc feed)"
| "run_step M ord loc ParseCalendarDates feed = returned (parseCalendarDates M loc feed)"
| "run_step M ord loc ParseTrips feed = returned (parseTrips M loc feed)"
| "run_step M ord loc ParseStopTimes feed = returned (parseStopTimes M loc feed)"
| "run_step M ord loc CheckStopTimes feed = checkStopTimes M ord feed"
| "run_step M ord loc ParseFareAttributes feed = returned (parseFareAttributes M loc feed)"
| "run_step M ord loc ParseFareAttributeRules feed = returned (parseFareAttributeRules M loc feed)"
| "run_step M ord loc ParseFrequencies feed = returned (parseFrequencies M loc feed)"
| "run_step M ord loc ParseTransfers feed = returned (parseTransfers M loc feed)"

text \<open>
  The chain of the blocks: the next block runs when the one before has left \<^verbatim>\<open>e\<close> at
  \<^verbatim>\<open>nil\<close>. The result is the feed as the last block run leaves it, what \<^verbatim>\<open>Parse\<close> returns
  (or the panic that ends it), and the blocks that have been run.
\<close>

fun run_steps ::
  "'x materializers \<Rightarrow> (string list \<Rightarrow> string list) \<Rightarrow> location \<Rightarrow> step list \<Rightarrow> 'x Feed
    \<Rightarrow> 'x Feed \<times> outcome \<times> step list" where
  "run_steps M ord loc [] feed = (feed, Return None, [])"
| "run_steps M ord loc (s # rest) feed =
     (case run_step M ord loc s feed of
        (feed', e) \<Rightarrow>
          if e = Return None then
            (case run_steps M ord loc rest feed' of (feed'', e', done) \<Rightarrow> (feed'', e', s # done))
          else (feed', e, [s]))"

definition Parse_run ::
  "'x materializers \<Rightarrow> (string list \<Rightarrow> string list) \<Rightarrow> location \<Rightarrow> 'x Feed
    \<Rightarrow> 'x Feed \<times> outcome \<times> step list" where
  "Parse_run M ord loc feed = run_steps M ord loc all_steps feed"

definition Parse ::
  "'x materializers \<Rightarrow> (string list \<Rightarrow> string list) \<Rightarrow> location \<Rightarrow> 'x Feed
    \<Rightarrow> 'x Feed \<times> outcome" where
  "Parse M ord loc feed = (case Parse_run M ord loc feed of (feed', e, done) \<Rightarrow> (feed', e))"

section \<open>Concrete shapes and trips\<close>

definition drop_only :: ParseOptions where
  "drop_only = \<lparr>UseDefValueOnError = False, DropErroneous = True, DryRun = False\<rparr>"

definition default_only :: ParseOptions where
  "default_only = \<lparr>UseDefValueOnError = True, DropErroneous = False, DryRun = False\<rparr>"

definition strict :: ParseOptions where
  "strict = \<lparr>UseDefValueOnError = False, DropErroneous = False, DryRun = False\<rparr>"

text \<open>A shape point with the sequence number and the declared distance given.\<close>

definition point_at :: "int \<Rightarrow> real \<Rightarrow> ShapePoint" where
  "point_at n d = \<lparr>ShapePoint.Sequence = n, Dist_traveled = Fin d, Has_dist = True\<rparr>"

text \<open>A shape point with the sequence number given, whose declared distance is NaN.\<close>

definition nan_at :: "int \<Rightarrow> ShapePoint" where
  "nan_at n = \<lparr>ShapePoint.Sequence = n, Dist_traveled = NaN, Has_dist = True\<rparr>"

definition time_of :: "int \<Rightarrow> Time" where
  "time_of secs = \<lparr>Empty = False, SecondsSinceMidnight = secs\<rparr>"

text \<open>A stop-time with sequence number, arrival and departure, and no distance declared.\<close>

definition stop_at :: "int \<Rightarrow> int \<Rightarrow> int \<Rightarrow> StopTime" where
  "stop_at n arr dep =
     \<lparr>Arrival_time = time_of arr, Departure_time = time_of dep, StopTime.Sequence = n,
      Shape_dist_traveled = Fin 0, Has_dist = False\<rparr>"

lemmas check_eval =
  checkShapeMeasure_def checkShapeMeasure_loop.simps
  checkStopTimeMeasure_def checkStopTimeMeasure_loop.simps checkStopTimeMeasure_order_def
  ShapePoint_HasDistanceTraveled_def StopTime_HasDistanceTraveled_def
  slice_at_def remove_at_def point_at_def stop_at_def time_of_def
  drop_only_def default_only_def strict_def

section \<open>The first element of a checked sequence\<close>

text \<open>
  Both loops only write at a position \<open>i\<close> for which the read of position \<open>i - 1\<close> has
  succeeded. So a property of the slice that survives a write and a removal behind the
  first position holds of the slice the check leaves, whatever its outcome.
\<close>

definition starts_with :: "'a \<Rightarrow> 'a list \<Rightarrow> bool" where
  "starts_with x xs = (case xs of [] \<Rightarrow> False | y # _ \<Rightarrow> y = x)"

lemma starts_with_update: "starts_with x xs \<Longrightarrow> 0 < n \<Longrightarrow> starts_with x (xs[n := y])"
  by (cases xs; cases n) (auto simp: starts_with_def)

lemma starts_with_remove_at: "starts_with x xs \<Longrightarrow> 0 < n \<Longrightarrow> starts_with x (remove_at xs n)"
  by (cases xs; cases n) (auto simp: starts_with_def remove_at_def)

lemma slice_at_pred: "slice_at xs (i - 1) = Some y \<Longrightarrow> 0 < nat i"
  by (auto simp: slice_at_def split: if_splits)

lemma slice_at_Some: "slice_at xs i = Some y \<Longrightarrow> nat i < length xs \<and> y = xs ! nat i"
  by (auto simp: slice_at_def split: if_splits)

lemma checkShapeMeasure_loop_invariant:
  assumes init: "P pts"
    and upd: "\<And>xs n x. P xs \<Longrightarrow> 0 < n \<Longrightarrow> n < length xs \<Longrightarrow> P (xs[n := x])"
    and rem: "\<And>xs n. P xs \<Longrightarrow> 0 < n \<Longrightarrow> n < length xs \<Longrightarrow> P (remove_at xs n)"
  shows "P (fst (checkShapeMeasure_loop sid opt j deleted mx pts))"
  using init
proof (induction sid opt j deleted mx pts rule: checkShapeMeasure_loop.induct)
  case (1 sid opt j deleted mx pts)
  note step = checkShapeMeasure_loop.simps [of sid opt j deleted mx pts]
  show ?case
  proof (cases "j < length pts")
    case False
    with "1.prems" show ?thesis by (simp add: step)
  next
    case inside: True
    define i where "i = int j - int deleted"
    show ?thesis
    proof (cases "slice_at pts (i - 1)")
      case None
      with inside "1.prems" show ?thesis by (simp add: step i_def Let_def)
    next
      case prev: (Some prev)
      define mx' where "mx' = (if ShapePoint_HasDistanceTraveled prev
                         then ShapePoint.Dist_traveled prev else mx)"
      from prev have pos: "0 < nat i" by (rule slice_at_pred)
      show ?thesis
      proof (cases "slice_at pts i")
        case None
        with inside prev "1.prems" show ?thesis by (simp add: step i_def Let_def)
      next
        case cur: (Some cur)
        from cur have lt: "nat i < length pts" by (simp add: slice_at_Some)
        let ?bad = "ShapePoint_HasDistanceTraveled cur \<and> f32_gt mx' (ShapePoint.Dist_traveled cur)"
        have unfolded: "checkShapeMeasure_loop sid opt j deleted mx pts =
          (if ?bad then
             if UseDefValueOnError opt then
               checkShapeMeasure_loop sid opt (Suc j) deleted mx'
                 (pts[nat i := cur\<lparr>ShapePoint.Dist_traveled := Fin 0,
                                   ShapePoint.Has_dist := False\<rparr>])
             else if DropErroneous opt then
               checkShapeMeasure_loop sid opt (Suc j) (Suc deleted) mx' (remove_at pts (nat i))
             else (pts, Return (Some (ShapeMeasureError sid (ShapePoint.Sequence cur)
                                        mx' (ShapePoint.Dist_traveled cur))))
           else checkShapeMeasure_loop sid opt (Suc j) deleted mx' pts)"
          using inside prev cur by (simp add: step i_def mx'_def Let_def)
        consider (ok) "\<not> ?bad" | (dflt) "?bad" "UseDefValueOnError opt"
          | (drop) "?bad" "\<not> UseDefValueOnError opt" "DropErroneous opt"
          | (err) "?bad" "\<not> UseDefValueOnError opt" "\<not> DropErroneous opt"
          by blast
        then show ?thesis
        proof cases
          case ok
          from "1.IH"(3) [OF inside i_def prev mx'_def cur ok "1.prems"] ok
          show ?thesis by (auto simp: unfolded)
        next
          case dflt
          from "1.IH"(1) [OF inside i_def prev mx'_def cur dflt(1) dflt(2)
            upd [OF "1.prems" pos lt]] dflt
          show ?thesis by (auto simp: unfolded)
        next
          case drop
          from "1.IH"(2) [OF inside i_def prev mx'_def cur drop(1) drop(2) drop(3)
            rem [OF "1.prems" pos lt]] drop
          show ?thesis by (auto simp: unfolded)
        next
          case err
          with "1.prems" show ?thesis by (auto simp: unfolded)
        qed
      qed
    qed
  qed
qed

lemma checkStopTimeMeasure_order_Inl:
  "checkStopTimeMeasure_order tid opt i deleted sts = Inl r \<Longrightarrow> fst r = sts"
  by (auto simp: checkStopTimeMeasure_order_def split: option.splits if_splits)

lemma checkStopTimeMeasure_order_Inr:
  "checkStopTimeMeasure_order tid opt i deleted sts = Inr (sts1, deleted1) \<Longrightarrow>
     sts1 = sts \<and> deleted1 = deleted
     \<or> 0 < nat i \<and> nat i < length sts \<and> sts1 = remove_at sts (nat i) \<and> deleted1 = Suc deleted"
  by (auto simp: checkStopTimeMeasure_order_def slice_at_def split: option.splits if_splits)

lemma checkStopTimeMeasure_loop_invariant:
  assumes init: "P sts"
    and upd: "\<And>xs n x. P xs \<Longrightarrow> 0 < n \<Longrightarrow> n < length xs \<Longrightarrow> P (xs[n := x])"
    and rem: "\<And>xs n. P xs \<Longrightarrow> 0 < n \<Longrightarrow> n < length xs \<Longrightarrow> P (remove_at xs n)"
  shows "P (fst (checkStopTimeMeasure_loop tid opt j deleted mx sts))"
  using init
proof (induction tid opt j deleted mx sts rule: checkStopTimeMeasure_loop.induct)
  case (1 tid opt j deleted mx sts)
  note step = checkStopTimeMeasure_loop.simps [of tid opt j deleted mx sts]
  show ?case
  proof (cases "j < length sts")
    case False
    with "1.prems" show ?thesis by (simp add: step)
  next
    case inside: True
    define i where "i = int j - int deleted"
    show ?thesis
    proof (cases "checkStopTimeMeasure_order tid opt i deleted sts")
      case (Inl r)
      with inside "1.prems" checkStopTimeMeasure_order_Inl [OF Inl]
      show ?thesis by (simp add: step i_def Let_def)
    next
      case (Inr st)
      obtain sts1 deleted1 where st: "st = (sts1, deleted1)" by (cases st)
      note ord = Inr [unfolded st]
      from checkStopTimeMeasure_order_Inr [OF ord] "1.prems" rem
      have P1: "P sts1" by auto
      show ?thesis
      proof (cases "slice_at sts1 (i - 1)")
        case None
        with inside ord P1 show ?thesis by (simp add: step i_def Let_def)
      next
        case prev: (Some prev)
        define mx' where "mx' = (if StopTime_HasDistanceTraveled prev
                           then Shape_dist_traveled prev else mx)"
        from prev have pos: "0 < nat i" by (rule slice_at_pred)
        show ?thesis
        proof (cases "slice_at sts1 i")
          case None
          with inside ord prev P1 show ?thesis by (simp add: step i_def Let_def)
        next
          case cur: (Some cur)
          from cur have lt: "nat i < length sts1" by (simp add: slice_at_Some)
          let ?bad = "StopTime_HasDistanceTraveled cur \<and> f32_gt mx' (Shape_dist_traveled cur)"
          have unfolded: "checkStopTimeMeasure_loop tid opt j deleted mx sts =
            (if ?bad then
               if UseDefValueOnError opt then
                 checkStopTimeMeasure_loop tid opt (Suc j) deleted1 mx'
                   (sts1[nat i := cur\<lparr>Shape_dist_traveled := Fin 0,
                                      StopTime.Has_dist := False\<rparr>])
               else if DropErroneous opt then
                 checkStopTimeMeasure_loop tid opt (Suc j) (Suc deleted1) mx'
                   (remove_at sts1 (nat i))
               else (sts1, Return (Some (StopTimeMeasureError tid (StopTime.Sequence cur)
                                          mx' (Shape_dist_traveled cur))))
             else checkStopTimeMeasure_loop tid opt (Suc j) deleted1 mx' sts1)"
            using inside ord prev cur by (simp add: step i_def mx'_def Let_def)
          have st': "(sts1, deleted1) = (sts1, deleted1)" ..
          consider (ok) "\<not> ?bad" | (dflt) "?bad" "UseDefValueOnError opt"
            | (drop) "?bad" "\<not> UseDefValueOnError opt" "DropErroneous opt"
            | (err) "?bad" "\<not> UseDefValueOnError opt" "\<not> DropErroneous opt"
            by blast
          then show ?thesis
          proof cases
            case ok
            from "1.IH"(3) [OF inside i_def ord st' prev mx'_def cur ok P1] ok
            show ?thesis by (auto simp: unfolded)
          next
            case dflt
            from "1.IH"(1) [OF inside i_def ord st' prev mx'_def cur dflt(1) dflt(2)
              upd [OF P1 pos lt]] dflt
            show ?thesis by (auto simp: unfolded)
          next
            case drop
            from "1.IH"(2) [OF inside i_def ord st' prev mx'_def cur drop(1) drop(2) drop(3)
              rem [OF P1 pos lt]] drop
            show ?thesis by (auto simp: unfolded)
          next
            case err
            with P1 show ?thesis by (auto simp: unfolded)
          qed
        qed
      qed
    qed
  qed
qed

text \<open>
  C10: for every shape, every trip and every setting of the flags, the checks leave the
  first element of the sequence in place and unchanged, whether they return \<^verbatim>\<open>nil\<close>,
  return an error or panic: the sequence they leave starts with the element the sequence
  they were given started with. An empty sequence stays empty.
\<close>

theorem checks_keep_first_element:
  "starts_with p (fst (checkShapeMeasure sid (p # pts) opt))
   \<and> starts_with s (fst (checkStopTimeMeasure tid (s # sts) opt'))
   \<and> fst (checkShapeMeasure sid [] opt) = []
   \<and> fst (checkStopTimeMeasure tid [] opt') = []"
proof -
  have "starts_with p (fst (checkShapeMeasure_loop sid opt 1 0 NegInf (p # pts)))"
  proof (rule checkShapeMeasure_loop_invariant)
    show "starts_with p (p # pts)" by (simp add: starts_with_def)
  qed (simp_all add: starts_with_update starts_with_remove_at)
  moreover have "starts_with s (fst (checkStopTimeMeasure_loop tid opt' 1 0 NegInf (s # sts)))"
  proof (rule checkStopTimeMeasure_loop_invariant)
    show "starts_with s (s # sts)" by (simp add: starts_with_def)
  qed (simp_all add: starts_with_update starts_with_remove_at)
  moreover have "fst (checkShapeMeasure_loop sid opt 1 0 NegInf []) = []"
    by (simp add: checkShapeMeasure_loop.simps)
  moreover have "fst (checkStopTimeMeasure_loop tid opt' 1 0 NegInf []) = []"
    by (simp add: checkStopTimeMeasure_loop.simps)
  ultimately show ?thesis
    by (simp add: checkShapeMeasure_def checkStopTimeMeasure_def)
qed

section \<open>Dropping from a sequence\<close>

text \<open>
  C2: with \<^verbatim>\<open>DropErroneous\<close> alone, the shape with the declared distances 10, 5, 20, 3 loses
  the point with distance 5, and the loop then ends before it has looked at the last
  point: \<open>j\<close> has gone up while the length has gone down. The check returns \<^verbatim>\<open>nil\<close> and
  leaves the point with distance 3 behind the one with distance 20.
\<close>

theorem checkShapeMeasure_drop_leaves_last_unchecked:
  "checkShapeMeasure ''s'' [point_at 1 10, point_at 2 5, point_at 3 20, point_at 4 3] drop_only
     = ([point_at 1 10, point_at 3 20, point_at 4 3], Return None)"
  by (simp add: check_eval)

text \<open>
  C4: with \<^verbatim>\<open>DropErroneous\<close>, a trip of four stop-times in which the second arrives before
  the first departs and the fourth arrives before the third departs. The second is
  removed; the loop ends before it compares the third and the fourth, and the check
  returns \<^verbatim>\<open>nil\<close> with the fourth stop-time still in the sequence.
\<close>

theorem checkStopTimeMeasure_drop_leaves_violation:
  "checkStopTimeMeasure ''t''
     [stop_at 1 90 100, stop_at 2 50 60, stop_at 3 200 300, stop_at 4 250 260] drop_only
     = ([stop_at 1 90 100, stop_at 3 200 300, stop_at 4 250 260], Return None)"
  by (simp add: check_eval)

text \<open>
  C9: with \<^verbatim>\<open>DropErroneous\<close>, a trip of two stop-times of which the second arrives before the
  first departs. The temporal test removes the second, the last element; the distance
  test of the same round then reads \<^verbatim>\<open>trip.StopTimes[1]\<close> in a slice of length 1.
\<close>

theorem checkStopTimeMeasure_index_out_of_range:
  "checkStopTimeMeasure ''t'' [stop_at 1 90 100, stop_at 2 50 60] drop_only
     = ([stop_at 1 90 100], Panic index_out_of_range)"
  by (simp add: check_eval)

section \<open>Defaulting in the shape check\<close>

lemma f32_gt_trans: "f32_gt a b \<Longrightarrow> f32_gt b c \<Longrightarrow> f32_gt a c"
  by (cases a; cases b; cases c) auto

lemma f32_gt_le: "f32_gt a c \<Longrightarrow> \<not> f32_gt a b \<Longrightarrow> b \<noteq> NaN \<Longrightarrow> f32_gt b c"
  by (cases a; cases b; cases c) auto

text \<open>No point of the shape declares NaN as its distance.\<close>

definition declares_numbers :: "'a ShapePoint_scheme list \<Rightarrow> bool" where
  "declares_numbers pts =
     (\<forall>p \<in> set pts. ShapePoint.Has_dist p \<longrightarrow> ShapePoint.Dist_traveled p \<noteq> NaN)"

text \<open>What the default branch of the shape check writes into a point.\<close>

definition reset_distance :: "'a ShapePoint_scheme \<Rightarrow> 'a ShapePoint_scheme" where
  "reset_distance p = p\<lparr>ShapePoint.Dist_traveled := Fin 0, ShapePoint.Has_dist := False\<rparr>"

text \<open>
  The point at position \<open>k\<close> declares a distance, and a point before it declares a
  greater one.
\<close>

definition below_preceding :: "'a ShapePoint_scheme list \<Rightarrow> nat \<Rightarrow> bool" where
  "below_preceding pts k =
     (ShapePoint.Has_dist (pts ! k)
      \<and> (\<exists>m<k. ShapePoint.Has_dist (pts ! m)
             \<and> f32_gt (ShapePoint.Dist_traveled (pts ! m)) (ShapePoint.Dist_traveled (pts ! k))))"

text \<open>
  The same seen from round \<open>j\<close> of the loop: the greater distance is the running value
  \<open>mx\<close> or is declared at a position from \<open>j - 1\<close> on.
\<close>

definition exceeded :: "float32 \<Rightarrow> 'a ShapePoint_scheme list \<Rightarrow> nat \<Rightarrow> nat \<Rightarrow> bool" where
  "exceeded mx pts j k =
     (ShapePoint.Has_dist (pts ! k)
      \<and> (f32_gt mx (ShapePoint.Dist_traveled (pts ! k))
         \<or> (\<exists>m. j - 1 \<le> m \<and> m < k \<and> ShapePoint.Has_dist (pts ! m)
             \<and> f32_gt (ShapePoint.Dist_traveled (pts ! m)) (ShapePoint.Dist_traveled (pts ! k)))))"

lemma checkShapeMeasure_loop_default:
  assumes "UseDefValueOnError opt" "deleted = 0" "0 < j"
    "ShapePoint.Has_dist (pts ! (j - 1)) \<Longrightarrow> \<not> f32_gt mx (ShapePoint.Dist_traveled (pts ! (j - 1)))"
    "declares_numbers pts"
  shows "\<exists>pts'. checkShapeMeasure_loop sid opt j deleted mx pts = (pts', Return None)
           \<and> length pts' = length pts
           \<and> (\<forall>k. k < j \<and> k < length pts \<longrightarrow> pts' ! k = pts ! k)
           \<and> (\<forall>k. j \<le> k \<and> k < length pts \<and> exceeded mx pts j k
                 \<longrightarrow> pts' ! k = reset_distance (pts ! k))"
  using assms
proof (induction sid opt j deleted mx pts rule: checkShapeMeasure_loop.induct)
  case (1 sid opt j deleted mx pts)
  note step = checkShapeMeasure_loop.simps [of sid opt j deleted mx pts]
  note dflt = \<open>UseDefValueOnError opt\<close> and zero = \<open>deleted = 0\<close> and pos = \<open>0 < j\<close>
    and numbers = \<open>declares_numbers pts\<close>
  show ?case
  proof (cases "j < length pts")
    case False
    then show ?thesis by (auto simp: step)
  next
    case inside: True
    define i where "i = int j - int deleted"
    define prev where "prev = pts ! (j - 1)"
    define cur where "cur = pts ! j"
    define mx' where "mx' = (if ShapePoint_HasDistanceTraveled prev
                         then ShapePoint.Dist_traveled prev else mx)"
    have nat_i: "nat i = j" by (simp add: i_def zero)
    have prev: "slice_at pts (i - 1) = Some prev"
      using inside pos by (auto simp: slice_at_def i_def zero prev_def nat_diff_distrib)
    have cur: "slice_at pts i = Some cur"
      using inside by (simp add: slice_at_def i_def zero cur_def)
    let ?bad = "ShapePoint_HasDistanceTraveled cur \<and> f32_gt mx' (ShapePoint.Dist_traveled cur)"
    have unfolded: "checkShapeMeasure_loop sid opt j deleted mx pts =
          (if ?bad then checkShapeMeasure_loop sid opt (Suc j) deleted mx' (pts[j := reset_distance cur])
           else checkShapeMeasure_loop sid opt (Suc j) deleted mx' pts)"
      using inside prev cur dflt nat_i
      by (simp add: step i_def [symmetric] mx'_def Let_def reset_distance_def)
    have prev_number: "ShapePoint.Dist_traveled prev \<noteq> NaN" if "ShapePoint.Has_dist prev"
    proof -
      have "prev \<in> set pts" using inside pos by (simp add: prev_def)
      with numbers that show ?thesis by (simp add: declares_numbers_def)
    qed
    have mono: "f32_gt mx' d" if "f32_gt mx d" for d
      using that "1.prems"(4) prev_number f32_gt_le [of mx d "ShapePoint.Dist_traveled prev"]
      by (auto simp: mx'_def prev_def ShapePoint_HasDistanceTraveled_def)
    have numbers2: "declares_numbers (pts[j := reset_distance cur])"
    proof -
      have "set (pts[j := reset_distance cur]) \<subseteq> insert (reset_distance cur) (set pts)"
        by (rule set_update_subset_insert)
      with numbers show ?thesis
        by (auto simp: declares_numbers_def reset_distance_def)
    qed
    have from_prev: "f32_gt mx' d"
      if "ShapePoint.Has_dist prev" "f32_gt (ShapePoint.Dist_traveled prev) d" for d
      using that by (simp add: mx'_def ShapePoint_HasDistanceTraveled_def)
    show ?thesis
    proof (cases ?bad)
      case bad: True
      define pts2 where "pts2 = pts[j := reset_distance cur]"
      have at_j: "pts2 ! j = reset_distance cur" using inside by (simp add: pts2_def)
      have other: "pts2 ! k = pts ! k" if "k \<noteq> j" for k using that by (simp add: pts2_def)
      have len2: "length pts2 = length pts" by (simp add: pts2_def)
      have "\<exists>pts'. checkShapeMeasure_loop sid opt (Suc j) deleted mx' pts2 = (pts', Return None)
           \<and> length pts' = length pts2
           \<and> (\<forall>k. k < Suc j \<and> k < length pts2 \<longrightarrow> pts' ! k = pts2 ! k)
           \<and> (\<forall>k. Suc j \<le> k \<and> k < length pts2 \<and> exceeded mx' pts2 (Suc j) k
                 \<longrightarrow> pts' ! k = reset_distance (pts2 ! k))"
        using "1.IH"(1) [OF inside i_def prev mx'_def cur bad dflt dflt zero] inside numbers2
        by (simp add: nat_i pts2_def reset_distance_def)
      then obtain pts' where res: "checkShapeMeasure_loop sid opt (Suc j) deleted mx' pts2 = (pts', Return None)"
        and len: "length pts' = length pts2"
        and same: "\<And>k. k < Suc j \<Longrightarrow> k < length pts2 \<Longrightarrow> pts' ! k = pts2 ! k"
        and rst: "\<And>k. Suc j \<le> k \<Longrightarrow> k < length pts2 \<Longrightarrow> exceeded mx' pts2 (Suc j) k
                 \<Longrightarrow> pts' ! k = reset_distance (pts2 ! k)"
        by blast
      have "pts' ! k = reset_distance (pts ! k)" if k: "j \<le> k" "k < length pts" and ex: "exceeded mx pts j k" for k
      proof (cases "k = j")
        case True
        with same [of j] inside at_j len2 show ?thesis by (simp add: cur_def)
      next
        case False
        with k have gt: "Suc j \<le> k" by simp
        have "exceeded mx' pts2 (Suc j) k"
        proof -
          from ex have has: "ShapePoint.Has_dist (pts ! k)" by (simp add: exceeded_def)
          let ?d = "ShapePoint.Dist_traveled (pts ! k)"
          from ex consider (a) "f32_gt mx ?d"
            | (b) m where "j - 1 \<le> m" "m < k" "ShapePoint.Has_dist (pts ! m)"
                "f32_gt (ShapePoint.Dist_traveled (pts ! m)) ?d"
            by (auto simp: exceeded_def)
          then have "f32_gt mx' ?d \<or> (\<exists>m. j \<le> m \<and> m < k \<and> ShapePoint.Has_dist (pts2 ! m)
             \<and> f32_gt (ShapePoint.Dist_traveled (pts2 ! m)) ?d)"
          proof cases
            case a
            then show ?thesis by (simp add: mono)
          next
            case b
            consider "m = j - 1" | "m = j" | "j < m" using b(1) by linarith
            then show ?thesis
            proof cases
              case 1
              with b from_prev [of ?d] show ?thesis by (simp add: prev_def)
            next
              case 2
              with b bad f32_gt_trans [of mx' "ShapePoint.Dist_traveled cur" ?d]
              show ?thesis by (simp add: cur_def)
            next
              case 3
              with b other [of m]
              have "j \<le> m \<and> m < k \<and> ShapePoint.Has_dist (pts2 ! m)
                \<and> f32_gt (ShapePoint.Dist_traveled (pts2 ! m)) ?d" by simp
              then show ?thesis by blast
            qed
          qed
          with has False other [of k] show ?thesis by (simp add: exceeded_def)
        qed
        from rst [OF gt _ this] k False other [of k] len2 show ?thesis by simp
      qed
      moreover have "pts' ! k = pts ! k" if "k < j" "k < length pts" for k
        using that same [of k] other [of k] len2 by simp
      moreover have "checkShapeMeasure_loop sid opt j deleted mx pts = (pts', Return None)"
        using bad res by (auto simp: unfolded pts2_def)
      ultimately show ?thesis
        using len len2 by auto
    next
      case good: False
      have "\<exists>pts'. checkShapeMeasure_loop sid opt (Suc j) deleted mx' pts = (pts', Return None)
           \<and> length pts' = length pts
           \<and> (\<forall>k. k < Suc j \<and> k < length pts \<longrightarrow> pts' ! k = pts ! k)
           \<and> (\<forall>k. Suc j \<le> k \<and> k < length pts \<and> exceeded mx' pts (Suc j) k
                 \<longrightarrow> pts' ! k = reset_distance (pts ! k))"
        using "1.IH"(3) [OF inside i_def prev mx'_def cur good dflt zero] good numbers
        by (simp add: cur_def ShapePoint_HasDistanceTraveled_def)
      then obtain pts' where res: "checkShapeMeasure_loop sid opt (Suc j) deleted mx' pts = (pts', Return None)"
        and len: "length pts' = length pts"
        and same: "\<And>k. k < Suc j \<Longrightarrow> k < length pts \<Longrightarrow> pts' ! k = pts ! k"
        and rst: "\<And>k. Suc j \<le> k \<Longrightarrow> k < length pts \<Longrightarrow> exceeded mx' pts (Suc j) k
                 \<Longrightarrow> pts' ! k = reset_distance (pts ! k)"
        by blast
      have "pts' ! k = reset_distance (pts ! k)" if k: "j \<le> k" "k < length pts" and ex: "exceeded mx pts j k" for k
      proof -
        from ex have has: "ShapePoint.Has_dist (pts ! k)" by (simp add: exceeded_def)
        let ?d = "ShapePoint.Dist_traveled (pts ! k)"
        from ex consider (a) "f32_gt mx ?d"
          | (b) m where "j - 1 \<le> m" "m < k" "ShapePoint.Has_dist (pts ! m)"
              "f32_gt (ShapePoint.Dist_traveled (pts ! m)) ?d"
          by (auto simp: exceeded_def)
        then have ex': "f32_gt mx' ?d \<or> (\<exists>m. j \<le> m \<and> m < k \<and> ShapePoint.Has_dist (pts ! m)
             \<and> f32_gt (ShapePoint.Dist_traveled (pts ! m)) ?d)"
        proof cases
          case a
          then show ?thesis by (simp add: mono)
        next
          case b
          consider "m = j - 1" | "j \<le> m" using b(1) by linarith
          then show ?thesis
          proof cases
            case 1
            with b from_prev [of ?d] show ?thesis by (simp add: prev_def)
          next
            case 2
            with b show ?thesis by blast
          qed
        qed
        show ?thesis
        proof (cases "k = j")
          case True
          with ex' has good show ?thesis
            by (auto simp: cur_def ShapePoint_HasDistanceTraveled_def)
        next
          case False
          with k have gt: "Suc j \<le> k" by simp
          from ex' has have "exceeded mx' pts (Suc j) k" by (simp add: exceeded_def)
          from rst [OF gt k(2) this] show ?thesis .
        qed
      qed
      moreover have "pts' ! k = pts ! k" if "k < j" "k < length pts" for k
        using that same [of k] by simp
      moreover have "checkShapeMeasure_loop sid opt j deleted mx pts = (pts', Return None)"
        using good res by (auto simp: unfolded)
      ultimately show ?thesis
        using len by auto
    qed
  qed
qed

text \<open>
  C5, as stated, fails on a shape that declares NaN: with \<^verbatim>\<open>UseDefValueOnError\<close> and the
  declared distances 10, NaN, 5, the running value is 10 in the first round and NaN in the
  second; neither \<^verbatim>\<open>10 > NaN\<close> nor \<^verbatim>\<open>NaN > 5\<close> holds, so the check returns \<^verbatim>\<open>nil\<close> and leaves
  the third point, which declares less than the first, with its distance 5 and its flag.
\<close>

theorem checkShapeMeasure_default_passes_nan:
  "checkShapeMeasure ''s'' [point_at 1 10, nan_at 2, point_at 3 5] default_only
     = ([point_at 1 10, nan_at 2, point_at 3 5], Return None)"
  by (simp add: check_eval nan_at_def)

text \<open>
  C5, amended: with \<^verbatim>\<open>UseDefValueOnError\<close> set and on a shape none of whose points declares
  NaN, the shape check returns \<^verbatim>\<open>nil\<close>, the shape keeps its number of points, and every
  point that declares a distance less than a distance declared before it stays at its
  position with the distance set to zero and the flag cleared.
\<close>

theorem checkShapeMeasure_default_resets:
  assumes "UseDefValueOnError opt" "declares_numbers pts"
  shows "\<exists>pts'. checkShapeMeasure sid pts opt = (pts', Return None)
           \<and> length pts' = length pts
           \<and> (\<forall>k<length pts. below_preceding pts k \<longrightarrow> pts' ! k = reset_distance (pts ! k))"
proof -
  have "\<exists>pts'. checkShapeMeasure_loop sid opt 1 0 NegInf pts = (pts', Return None)
           \<and> length pts' = length pts
           \<and> (\<forall>k. k < 1 \<and> k < length pts \<longrightarrow> pts' ! k = pts ! k)
           \<and> (\<forall>k. 1 \<le> k \<and> k < length pts \<and> exceeded NegInf pts 1 k
                 \<longrightarrow> pts' ! k = reset_distance (pts ! k))"
    by (rule checkShapeMeasure_loop_default) (use assms in simp_all)
  then obtain pts' where res: "checkShapeMeasure_loop sid opt 1 0 NegInf pts = (pts', Return None)"
    and len: "length pts' = length pts"
    and rst: "\<And>k. 1 \<le> k \<Longrightarrow> k < length pts \<Longrightarrow> exceeded NegInf pts 1 k
                 \<Longrightarrow> pts' ! k = reset_distance (pts ! k)"
    by auto
  have "pts' ! k = reset_distance (pts ! k)" if "k < length pts" "below_preceding pts k" for k
  proof -
    from that(2) have "1 \<le> k" "exceeded NegInf pts 1 k"
      by (auto simp: below_preceding_def exceeded_def)
    with rst that(1) show ?thesis by simp
  qed
  with res len show ?thesis by (simp add: checkShapeMeasure_def)
qed

theorem checkShapeMeasure_default_resets_witness:
  "UseDefValueOnError default_only
   \<and> declares_numbers [point_at 1 10, point_at 2 5, point_at 3 20]
   \<and> below_preceding [point_at 1 10, point_at 2 5, point_at 3 20] 1
   \<and> (\<exists>pts'. checkShapeMeasure ''s'' [point_at 1 10, point_at 2 5, point_at 3 20] default_only
                 = (pts', Return None)
          \<and> length pts' = 3 \<and> pts' ! 1 = reset_distance (point_at 2 5))"
proof -
  have flag: "UseDefValueOnError default_only" by (simp add: default_only_def)
  have numbers: "declares_numbers [point_at 1 10, point_at 2 5, point_at 3 20]"
    by (simp add: declares_numbers_def point_at_def)
  have below: "below_preceding [point_at 1 10, point_at 2 5, point_at 3 20] 1"
    by (simp add: below_preceding_def point_at_def)
  from checkShapeMeasure_default_resets [OF flag numbers, of "''s''"] below
  have "\<exists>pts'. checkShapeMeasure ''s'' [point_at 1 10, point_at 2 5, point_at 3 20] default_only
                 = (pts', Return None)
          \<and> length pts' = 3 \<and> pts' ! 1 = reset_distance (point_at 2 5)"
    by auto
  with flag numbers below show ?thesis by simp
qed

section \<open>A concrete feed source\<close>

text \<open>
  An instance of the parameters for the concrete runs below: materializers that read
  the id column of the record and nothing else; the one for shape points stores a shape
  without points, the others that work in place leave their table as it is. The two
  arrangements are the stable sorts by sequence number.
\<close>

definition id_of :: "string \<Rightarrow> csv_record \<Rightarrow> (string \<Rightarrow> 'a) \<Rightarrow> string + 'a" where
  "id_of column rec build =
     (case rec column of None \<Rightarrow> Inl (''missing '' @ column) | Some v \<Rightarrow> Inr (build v))"

definition example_trip :: "string \<Rightarrow> unit Trip" where
  "example_trip v =
     \<lparr>Trip.Id = v, Route = None, Service = None, Headsign = [], Short_name = [],
      Direction_id = 0, Block_id = [], Shape = None, Wheelchair_accessible = 0,
      Bikes_allowed = 0, StopTimes = [], Frequencies = []\<rparr>"

definition example_materializers :: "unit materializers" where
  "example_materializers =
     \<lparr>createAgency = (\<lambda>rec opt. id_of ''agency_id'' rec (\<lambda>v. \<lparr>Agency.Id = v\<rparr>)),
      createStop = (\<lambda>rec opt. id_of ''stop_id'' rec (\<lambda>v. \<lparr>Stop.Id = v, Parent_station = None\<rparr>)),
      createRoute = (\<lambda>rec agencies opt. id_of ''route_id'' rec (\<lambda>v. \<lparr>Route.Id = v\<rparr>)),
      createServiceFromCalendar =
        (\<lambda>rec services opt. (services, id_of ''service_id'' rec (\<lambda>v. Some \<lparr>Service.Id = v\<rparr>))),
      createServiceFromCalendarDates =
        (\<lambda>rec services. (services, id_of ''service_id'' rec (\<lambda>v. Some \<lparr>Service.Id = v\<rparr>))),
      createTrip = (\<lambda>rec routes services shapes opt. id_of ''trip_id'' rec example_trip),
      createShapePoint =
        (\<lambda>rec shapes opt.
           case rec ''shape_id'' of
             None \<Rightarrow> (shapes, Some ''missing shape_id'')
           | Some v \<Rightarrow> (AList.update v (Some \<lparr>Shape.Id = v, Points = []\<rparr>) shapes, None)),
      createStopTime = (\<lambda>rec stops trips opt. (trips, None)),
      createFrequency = (\<lambda>rec trips opt. (trips, None)),
      createFareAttribute = (\<lambda>rec opt. id_of ''fare_id'' rec (\<lambda>v. \<lparr>FareAttribute.Id = v\<rparr>)),
      createFareRule = (\<lambda>rec fares routes. (fares, None)),
      createTransfer =
        (\<lambda>rec stops opt. Inr \<lparr>From_stop = rec ''from_stop_id'', To_stop = rec ''to_stop_id''\<rparr>),
      createFeedInfo = (\<lambda>rec opt. Inl ''feed_info.txt is not read in these runs''),
      sortShapePoints = sort_key ShapePoint.Sequence,
      sortStopTimes = sort_key StopTime.Sequence\<rparr>"

definition no_lines :: csv_file where
  "no_lines = \<lparr>Lines = [], End_line = 1\<rparr>"

definition one_row :: "csv_record \<Rightarrow> csv_file" where
  "one_row rec = \<lparr>Lines = [(2, Row rec)], End_line = 3\<rparr>"

text \<open>A directory with the five files that the stages insist on, the stops file given.\<close>

definition directory_with_stops :: "csv_file \<Rightarrow> location" where
  "directory_with_stops stops =
     Directory [''agency.txt'' \<mapsto> no_lines, ''stops.txt'' \<mapsto> stops, ''routes.txt'' \<mapsto> no_lines,
                ''trips.txt'' \<mapsto> no_lines, ''stop_times.txt'' \<mapsto> no_lines]"

definition agency_only :: location where
  "agency_only = Directory [''agency.txt'' \<mapsto> no_lines]"

definition stop_with_parent :: "string \<Rightarrow> string \<Rightarrow> csv_record" where
  "stop_with_parent stop_id pid = [''stop_id'' \<mapsto> stop_id, ''parent_station'' \<mapsto> pid]"

lemmas parse_eval =
  Parse_def Parse_run_def all_steps_def returned_def
  parse_file_def parseAgencies_def parseFeedInfos_def parseStops_def parseShapes_def parseRoutes_def
  parseCalendar_def parseCalendarDates_def parseTrips_def parseStopTimes_def
  parseFareAttributes_def parseFareAttributeRules_def parseFrequencies_def parseTransfers_def
  checkShapes_def checkStopTimes_def recovered_def store_service_def range_map_def
  List.map_filter_def set_Parent_station_def no_station_message_def nil_dereference_def
  NewFeed_def SetParseOpts_def example_materializers_def id_of_def example_trip_def
  no_lines_def one_row_def directory_with_stops_def agency_only_def
  stop_with_parent_def

section \<open>The chain of blocks\<close>

lemma run_steps_failure:
  assumes "run_steps M ord loc before feed = (feed_k, Return None, before)"
    and "run_step M ord loc s feed_k = (feed', e)" and "e \<noteq> Return None"
  shows "run_steps M ord loc (before @ s # after) feed = (feed', e, before @ [s])"
  using assms
proof (induction before arbitrary: feed)
  case Nil
  then show ?case by simp
next
  case (Cons b before)
  obtain f1 e1 where b: "run_step M ord loc b feed = (f1, e1)" by (cases "run_step M ord loc b feed")
  obtain f2 e2 d2 where rest: "run_steps M ord loc before f1 = (f2, e2, d2)"
    by (cases "run_steps M ord loc before f1")
  from Cons.prems(1) b rest have "e1 = Return None" "f2 = feed_k" "e2 = Return None" "d2 = before"
    by (auto split: if_splits)
  with rest Cons.IH [of f1] Cons.prems(2,3) b show ?case by simp
qed

lemma distinct_all_steps: "distinct all_steps"
  by (simp add: all_steps_def)

text \<open>
  C1: when the blocks before a block have all left \<^verbatim>\<open>e\<close> at \<^verbatim>\<open>nil\<close> and the block returns an
  error, \<^verbatim>\<open>Parse\<close> returns that error with the feed as the block leaves it, and the blocks
  that have been run are the ones before it and the block itself: none of the later ones.
\<close>

theorem Parse_halts_at_first_failure:
  assumes "all_steps = before @ s # after"
    and "run_steps M ord loc before feed = (feed_k, Return None, before)"
    and "run_step M ord loc s feed_k = (feed', Return (Some e))"
  shows "Parse_run M ord loc feed = (feed', Return (Some e), before @ [s])
         \<and> Parse M ord loc feed = (feed', Return (Some e))
         \<and> set after \<inter> set (before @ [s]) = {}"
proof -
  from run_steps_failure [OF assms(2,3), of after]
  have run: "Parse_run M ord loc feed = (feed', Return (Some e), before @ [s])"
    by (simp add: Parse_run_def assms(1))
  from distinct_all_steps have "set after \<inter> set (before @ [s]) = {}"
    unfolding assms(1) by auto
  with run show ?thesis by (simp add: Parse_def)
qed

theorem Parse_halts_at_first_failure_witness:
  "all_steps = [ParseAgencies, ParseFeedInfos] @ ParseStops #
      [ParseShapes, CheckShapes, ParseRoutes, ParseCalendar, ParseCalendarDates, ParseTrips,
       ParseStopTimes, CheckStopTimes, ParseFareAttributes, ParseFareAttributeRules,
       ParseFrequencies, ParseTransfers]
   \<and> Parse_run example_materializers id agency_only NewFeed
       = (NewFeed, Return (Some (ErrorString ''Could not open required file stops.txt'')),
          [ParseAgencies, ParseFeedInfos, ParseStops])"
proof -
  let ?loc = agency_only
  have steps: "all_steps = [ParseAgencies, ParseFeedInfos] @ ParseStops #
      [ParseShapes, CheckShapes, ParseRoutes, ParseCalendar, ParseCalendarDates, ParseTrips,
       ParseStopTimes, CheckStopTimes, ParseFareAttributes, ParseFareAttributeRules,
       ParseFrequencies, ParseTransfers]"
    by (simp add: all_steps_def)
  have before: "run_steps example_materializers id ?loc [ParseAgencies, ParseFeedInfos]
       (NewFeed :: unit Feed) = (NewFeed, Return None, [ParseAgencies, ParseFeedInfos])"
    by (simp add: parse_eval)
  have failing: "run_step example_materializers id ?loc ParseStops (NewFeed :: unit Feed)
       = (NewFeed, Return (Some (ErrorString ''Could not open required file stops.txt'')))"
    by (simp add: parse_eval)
  from Parse_halts_at_first_failure [OF steps before failing] steps
  show ?thesis by simp
qed

section \<open>Files that are absent\<close>

lemma run_steps_failing_step:
  assumes "s \<in> set steps" and "\<And>f. snd (run_step M ord loc s f) \<noteq> Return None"
  shows "fst (snd (run_steps M ord loc steps feed)) \<noteq> Return None"
  using assms(1)
proof (induction steps arbitrary: feed)
  case Nil
  then show ?case by simp
next
  case (Cons b steps)
  obtain f1 e1 where b: "run_step M ord loc b feed = (f1, e1)" by (cases "run_step M ord loc b feed")
  show ?case
  proof (cases "e1 = Return None")
    case False
    with b show ?thesis by simp
  next
    case True
    with b assms(2) [of feed] have "s \<noteq> b" by auto
    with Cons.prems have "s \<in> set steps" by simp
    from Cons.IH [OF this, of f1] b True show ?thesis
      by (auto split: prod.splits)
  qed
qed

text \<open>The files whose stage returns an error when the file does not open.\<close>

definition required_files :: "(string \<times> step) list" where
  "required_files =
     [(''agency.txt'', ParseAgencies), (''stops.txt'', ParseStops), (''routes.txt'', ParseRoutes),
      (''trips.txt'', ParseTrips), (''stop_times.txt'', ParseStopTimes)]"

text \<open>The files whose stage returns \<^verbatim>\<open>nil\<close> at once when the file does not open.\<close>

definition optional_files :: "(string \<times> step) list" where
  "optional_files =
     [(''feed_info.txt'', ParseFeedInfos), (''shapes.txt'', ParseShapes),
      (''calendar.txt'', ParseCalendar), (''calendar_dates.txt'', ParseCalendarDates),
      (''fare_attributes.txt'', ParseFareAttributes), (''fare_rules.txt'', ParseFareAttributeRules),
      (''frequencies.txt'', ParseFrequencies), (''transfers.txt'', ParseTransfers)]"

lemma required_step_fails:
  assumes "(name, s) \<in> set required_files" "getFile loc name = None"
  shows "\<exists>msg. run_step M ord loc s feed = (feed, Return (Some (ErrorString msg)))"
  using assms
  by (auto simp: required_files_def returned_def parse_file_def parseAgencies_def parseStops_def
        parseRoutes_def parseTrips_def parseStopTimes_def)

lemma optional_step_passes:
  assumes "(name, s) \<in> set optional_files" "getFile loc name = None"
  shows "run_step M ord loc s feed = (feed, Return None)"
  using assms
  by (auto simp: optional_files_def returned_def parse_file_def parseFeedInfos_def parseShapes_def
        parseCalendar_def parseCalendarDates_def parseFareAttributes_def
        parseFareAttributeRules_def parseFrequencies_def parseTransfers_def)

text \<open>
  C6, amended: when the agency, stops, routes, trips or stop-times file does not open, the
  stage of the file returns an error and the parse does not succeed. When the feed-info,
  shapes, calendar, calendar-dates, fare-attributes, fare-rules, frequencies or transfers
  file does not open, the stage of the file returns \<^verbatim>\<open>nil\<close> and leaves the feed as it is.
  Both calendar files are of the second kind.
\<close>

theorem absent_files:
  "(\<forall>(name, s) \<in> set required_files. getFile loc name = None \<longrightarrow>
      (\<exists>msg. run_step M ord loc s feed = (feed, Return (Some (ErrorString msg))))
      \<and> snd (Parse M ord loc feed) \<noteq> Return None)
   \<and> (\<forall>(name, s) \<in> set optional_files. getFile loc name = None \<longrightarrow>
        run_step M ord loc s feed = (feed, Return None))"
proof -
  have "snd (Parse M ord loc feed) \<noteq> Return None"
    if "(name, s) \<in> set required_files" "getFile loc name = None" for name s
  proof -
    from that(1) have "s \<in> set all_steps" by (auto simp: required_files_def all_steps_def)
    moreover have "snd (run_step M ord loc s f) \<noteq> Return None" for f
      using required_step_fails [OF that, of M ord f] by auto
    ultimately have "fst (snd (run_steps M ord loc all_steps feed)) \<noteq> Return None"
      by (rule run_steps_failing_step)
    then show ?thesis by (auto simp: Parse_def Parse_run_def split: prod.splits)
  qed
  with required_step_fails optional_step_passes show ?thesis by blast
qed

theorem absent_files_witness:
  "(''stops.txt'', ParseStops) \<in> set required_files \<and> getFile agency_only ''stops.txt'' = None
   \<and> snd (Parse example_materializers id agency_only NewFeed) \<noteq> Return None
   \<and> (''shapes.txt'', ParseShapes) \<in> set optional_files \<and> getFile agency_only ''shapes.txt'' = None
   \<and> run_step example_materializers id agency_only ParseShapes NewFeed = (NewFeed, Return None)"
proof -
  have req: "(''stops.txt'', ParseStops) \<in> set required_files"
    and opt: "(''shapes.txt'', ParseShapes) \<in> set optional_files"
    by (simp_all add: required_files_def optional_files_def)
  have none: "getFile agency_only ''stops.txt'' = None" "getFile agency_only ''shapes.txt'' = None"
    by (simp_all add: agency_only_def)
  from absent_files [of agency_only example_materializers id NewFeed] req opt none
  show ?thesis by auto
qed

text \<open>
  C6 as stated fails: a directory that holds the five files above, without a line each, and
  neither \<^verbatim>\<open>calendar.txt\<close> nor \<^verbatim>\<open>calendar_dates.txt\<close>, parses with \<^verbatim>\<open>nil\<close>.
\<close>

theorem Parse_without_calendar_files:
  "getFile (directory_with_stops no_lines) ''calendar.txt'' = None
   \<and> getFile (directory_with_stops no_lines) ''calendar_dates.txt'' = None
   \<and> Parse example_materializers id (directory_with_stops no_lines) NewFeed = (NewFeed, Return None)"
  by (simp add: parse_eval)

section \<open>What a block changes\<close>

lemma for_each_record_invariant:
  assumes "P s" and step: "\<And>s rec. P s \<Longrightarrow> P (fst (body s rec))"
  shows "P (fst (for_each_record body dropping ls s))"
  using assms(1)
proof (induction ls arbitrary: s)
  case Nil
  then show ?case by simp
next
  case (Cons l ls)
  obtain n line where l: "l = (n, line)" by (cases l)
  show ?case
  proof (cases line)
    case (Malformed msg)
    with l Cons.prems show ?thesis by simp
  next
    case (Row rec)
    obtain s' e where b: "body s rec = (s', e)" by (cases "body s rec")
    from step [OF Cons.prems, of rec] b have "P s'" by simp
    with Cons.IH [of s'] l Row b show ?thesis
      by (cases e) auto
  qed
qed

lemma parse_file_invariant:
  assumes "P feed" and "\<And>s rec. P s \<Longrightarrow> P (fst (body s rec))"
  shows "P (fst (parse_file name absent body loc feed))"
proof (cases "getFile loc name")
  case None
  with assms(1) show ?thesis by (simp add: parse_file_def)
next
  case (Some f)
  from for_each_record_invariant [of P feed body "DropErroneous (opts feed)" "Lines f", OF assms]
  show ?thesis by (auto simp: parse_file_def Some split: prod.splits)
qed

lemma parseAgencies_frame: "\<exists>v. fst (parseAgencies M loc feed) = feed\<lparr>Agencies := v\<rparr>"
  unfolding parseAgencies_def
  by (rule parse_file_invariant) (auto split: sum.splits intro: exI [of _ "Agencies feed"])

lemma parseFeedInfos_frame: "\<exists>v. fst (parseFeedInfos M loc feed) = feed\<lparr>FeedInfos := v\<rparr>"
  unfolding parseFeedInfos_def
  by (rule parse_file_invariant) (auto split: sum.splits intro: exI [of _ "FeedInfos feed"])

lemma parseRoutes_frame: "\<exists>v. fst (parseRoutes M loc feed) = feed\<lparr>Routes := v\<rparr>"
  unfolding parseRoutes_def
  by (rule parse_file_invariant) (auto split: sum.splits intro: exI [of _ "Routes feed"])

lemma parseCalendar_frame: "\<exists>v. fst (parseCalendar M loc feed) = feed\<lparr>Services := v\<rparr>"
  unfolding parseCalendar_def
  by (rule parse_file_invariant) (auto simp: store_service_def split: sum.splits option.splits prod.splits intro: exI [of _ "Services feed"])

lemma parseCalendarDates_frame: "\<exists>v. fst (parseCalendarDates M loc feed) = feed\<lparr>Services := v\<rparr>"
  unfolding parseCalendarDates_def
  by (rule parse_file_invariant) (auto simp: store_service_def split: sum.splits option.splits prod.splits intro: exI [of _ "Services feed"])

lemma parseTrips_frame: "\<exists>v. fst (parseTrips M loc feed) = feed\<lparr>Trips := v\<rparr>"
  unfolding parseTrips_def
  by (rule parse_file_invariant) (auto split: sum.splits intro: exI [of _ "Trips feed"])

lemma parseShapes_frame: "\<exists>v. fst (parseShapes M loc feed) = feed\<lparr>Shapes := v\<rparr>"
  unfolding parseShapes_def
  by (rule parse_file_invariant) (auto split: prod.splits intro: exI [of _ "Shapes feed"])

lemma parseStopTimes_frame: "\<exists>v. fst (parseStopTimes M loc feed) = feed\<lparr>Trips := v\<rparr>"
  unfolding parseStopTimes_def
  by (rule parse_file_invariant) (auto split: prod.splits intro: exI [of _ "Trips feed"])

lemma parseFrequencies_frame: "\<exists>v. fst (parseFrequencies M loc feed) = feed\<lparr>Trips := v\<rparr>"
  unfolding parseFrequencies_def
  by (rule parse_file_invariant) (auto split: prod.splits intro: exI [of _ "Trips feed"])

lemma parseFareAttributes_frame: "\<exists>v. fst (parseFareAttributes M loc feed) = feed\<lparr>FareAttributes := v\<rparr>"
  unfolding parseFareAttributes_def
  by (rule parse_file_invariant) (auto split: sum.splits intro: exI [of _ "FareAttributes feed"])

lemma parseFareAttributeRules_frame: "\<exists>v. fst (parseFareAttributeRules M loc feed) = feed\<lparr>FareAttributes := v\<rparr>"
  unfolding parseFareAttributeRules_def
  by (rule parse_file_invariant) (auto split: prod.splits intro: exI [of _ "FareAttributes feed"])

lemma parseTransfers_frame: "\<exists>v. fst (parseTransfers M loc feed) = feed\<lparr>Transfers := v\<rparr>"
  unfolding parseTransfers_def
  by (rule parse_file_invariant) (auto split: sum.splits intro: exI [of _ "Transfers feed"])

lemma parseStops_loop_invariant:
  assumes "P feed" and "\<And>s v. P s \<Longrightarrow> P (s\<lparr>Stops := v\<rparr>)"
  shows "P (fst (fst (for_each_record
                  (\<lambda>(feed, parentStopIds) rec.
                     case createStop M rec (opts feed) of
                       Inl e \<Rightarrow> ((feed, parentStopIds), Some e)
                     | Inr stop \<Rightarrow>
                         ((feed\<lparr>Stops := AList.update (Stop.Id stop) (Some stop) (Stops feed)\<rparr>,
                           (case rec ''parent_station'' of
                              Some v \<Rightarrow>
                                if length v > 0 then AList.update (Stop.Id stop) v parentStopIds
                                else parentStopIds
                            | None \<Rightarrow> parentStopIds)), None))
                  dropping ls (feed, parents))))"
  by (rule for_each_record_invariant [where P = "\<lambda>s. P (fst s)"])
     (auto simp: assms split: sum.splits)

lemma parseStops_invariant:
  assumes "P feed" and "\<And>s v. P s \<Longrightarrow> P (s\<lparr>Stops := v\<rparr>)"
  shows "P (fst (parseStops M ord loc feed))"
proof (cases "getFile loc ''stops.txt''")
  case None
  with assms(1) show ?thesis by (simp add: parseStops_def)
next
  case (Some f)
  from parseStops_loop_invariant [of P feed M "DropErroneous (opts feed)" "Lines f" "[]", OF assms]
  show ?thesis
    by (auto simp: parseStops_def Some assms(2) split: prod.splits option.splits)
qed

lemma parseStops_frame: "\<exists>v. fst (parseStops M ord loc feed) = feed\<lparr>Stops := v\<rparr>"
  by (rule parseStops_invariant) (auto intro: exI [of _ "Stops feed"])

lemma checkShapes_frame: "\<exists>v. fst (checkShapes M ord feed) = feed\<lparr>Shapes := v\<rparr>"
  by (auto simp: checkShapes_def split: prod.splits outcome.splits)

lemma checkStopTimes_frame: "\<exists>v. fst (checkStopTimes M ord feed) = feed\<lparr>Trips := v\<rparr>"
  by (auto simp: checkStopTimes_def split: prod.splits)

lemma parseAgencies_keeps:
  "opts (fst (parseAgencies M loc feed)) = opts feed"
  "Stops (fst (parseAgencies M loc feed)) = Stops feed"
  "Routes (fst (parseAgencies M loc feed)) = Routes feed"
  "Trips (fst (parseAgencies M loc feed)) = Trips feed"
  "Services (fst (parseAgencies M loc feed)) = Services feed"
  "FareAttributes (fst (parseAgencies M loc feed)) = FareAttributes feed"
  "Shapes (fst (parseAgencies M loc feed)) = Shapes feed"
  "Transfers (fst (parseAgencies M loc feed)) = Transfers feed"
  "FeedInfos (fst (parseAgencies M loc feed)) = FeedInfos feed"
  using parseAgencies_frame [of M loc feed] by auto

lemma parseFeedInfos_keeps:
  "opts (fst (parseFeedInfos M loc feed)) = opts feed"
  "Agencies (fst (parseFeedInfos M loc feed)) = Agencies feed"
  "Stops (fst (parseFeedInfos M loc feed)) = Stops feed"
  "Routes (fst (parseFeedInfos M loc feed)) = Routes feed"
  "Trips (fst (parseFeedInfos M loc feed)) = Trips feed"
  "Services (fst (parseFeedInfos M loc feed)) = Services feed"
  "FareAttributes (fst (parseFeedInfos M loc feed)) = FareAttributes feed"
  "Shapes (fst (parseFeedInfos M loc feed)) = Shapes feed"
  "Transfers (fst (parseFeedInfos M loc feed)) = Transfers feed"
  using parseFeedInfos_frame [of M loc feed] by auto

lemma parseStops_keeps:
  "opts (fst (parseStops M ord loc feed)) = opts feed"
  "Agencies (fst (parseStops M ord loc feed)) = Agencies feed"
  "Routes (fst (parseStops M ord loc feed)) = Routes feed"
  "Trips (fst (parseStops M ord loc feed)) = Trips feed"
  "Services (fst (parseStops M ord loc feed)) = Services feed"
  "FareAttributes (fst (parseStops M ord loc feed)) = FareAttributes feed"
  "Shapes (fst (parseStops M ord loc feed)) = Shapes feed"
  "Transfers (fst (parseStops M ord loc feed)) = Transfers feed"
  "FeedInfos (fst (parseStops M ord loc feed)) = FeedInfos feed"
  using parseStops_frame [of M ord loc feed] by auto

lemma parseShapes_keeps:
  "opts (fst (parseShapes M loc feed)) = opts feed"
  "Agencies (fst (parseShapes M loc feed)) = Agencies feed"
  "Stops (fst (parseShapes M loc feed)) = Stops feed"
  "Routes (fst (parseShapes M loc feed)) = Routes feed"
  "Trips (fst (parseShapes M loc feed)) = Trips feed"
  "Services (fst (parseShapes M loc feed)) = Services feed"
  "FareAttributes (fst (parseShapes M loc feed)) = FareAttributes feed"
  "Transfers (fst (parseShapes M loc feed)) = Transfers feed"
  "FeedInfos (fst (parseShapes M loc feed)) = FeedInfos feed"
  using parseShapes_frame [of M loc feed] by auto

lemma checkShapes_keeps:
  "opts (fst (checkShapes M ord feed)) = opts feed"
  "Agencies (fst (checkShapes M ord feed)) = Agencies feed"
  "Stops (fst (checkShapes M ord feed)) = Stops feed"
  "Routes (fst (checkShapes M ord feed)) = Routes feed"
  "Trips (fst (checkShapes M ord feed)) = Trips feed"
  "Services (fst (checkShapes M ord feed)) = Services feed"
  "FareAttributes (fst (checkShapes M ord feed)) = FareAttributes feed"
  "Transfers (fst (checkShapes M ord feed)) = Transfers feed"
  "FeedInfos (fst (checkShapes M ord feed)) = FeedInfos feed"
  using checkShapes_frame [of M ord feed] by auto

lemma parseRoutes_keeps:
  "opts (fst (parseRoutes M loc feed)) = opts feed"
  "Agencies (fst (parseRoutes M loc feed)) = Agencies feed"
  "Stops (fst (parseRoutes M loc feed)) = Stops feed"
  "Trips (fst (parseRoutes M loc feed)) = Trips feed"
  "Services (fst (parseRoutes M loc feed)) = Services feed"
  "FareAttributes (fst (parseRoutes M loc feed)) = FareAttributes feed"
  "Shapes (fst (parseRoutes M loc feed)) = Shapes feed"
  "Transfers (fst (parseRoutes M loc feed)) = Transfers feed"
  "FeedInfos (fst (parseRoutes M loc feed)) = FeedInfos feed"
  using parseRoutes_frame [of M loc feed] by auto

lemma parseCalendar_keeps:
  "opts (fst (parseCalendar M loc feed)) = opts feed"
  "Agencies (fst (parseCalendar M loc feed)) = Agencies feed"
  "Stops (fst (parseCalendar M loc feed)) = Stops feed"
  "Routes (fst (parseCalendar M loc feed)) = Routes feed"
  "Trips (fst (parseCalendar M loc feed)) = Trips feed"
  "FareAttributes (fst (parseCalendar M loc feed)) = FareAttributes feed"
  "Shapes (fst (parseCalendar M loc feed)) = Shapes feed"
  "Transfers (fst (parseCalendar M loc feed)) = Transfers feed"
  "FeedInfos (fst (parseCalendar M loc feed)) = FeedInfos feed"
  using parseCalendar_frame [of M loc feed] by auto

lemma parseCalendarDates_keeps:
  "opts (fst (parseCalendarDates M loc feed)) = opts feed"
  "Agencies (fst (parseCalendarDates M loc feed)) = Agencies feed"
  "Stops (fst (parseCalendarDates M loc feed)) = Stops feed"
  "Routes (fst (parseCalendarDates M loc feed)) = Routes feed"
  "Trips (fst (parseCalendarDates M loc feed)) = Trips feed"
  "FareAttributes (fst (parseCalendarDates M loc feed)) = FareAttributes feed"
  "Shapes (fst (parseCalendarDates M loc feed)) = Shapes feed"
  "Transfers (fst (parseCalendarDates M loc feed)) = Transfers feed"
  "FeedInfos (fst (parseCalendarDates M loc feed)) = FeedInfos feed"
  using parseCalendarDates_frame [of M loc feed] by auto

lemma parseTrips_keeps:
  "opts (fst (parseTrips M loc feed)) = opts feed"
  "Agencies (fst (parseTrips M loc feed)) = Agencies feed"
  "Stops (fst (parseTrips M loc feed)) = Stops feed"
  "Routes (fst (parseTrips M loc feed)) = Routes feed"
  "Services (fst (parseTrips M loc feed)) = Services feed"
  "FareAttributes (fst (parseTrips M loc feed)) = FareAttributes feed"
  "Shapes (fst (parseTrips M loc feed)) = Shapes feed"
  "Transfers (fst (parseTrips M loc feed)) = Transfers feed"
  "FeedInfos (fst (parseTrips M loc feed)) = FeedInfos feed"
  using parseTrips_frame [of M loc feed] by auto

lemma parseStopTimes_keeps:
  "opts (fst (parseStopTimes M loc feed)) = opts feed"
  "Agencies (fst (parseStopTimes M loc feed)) = Agencies feed"
  "Stops (fst (parseStopTimes M loc feed)) = Stops feed"
  "Routes (fst (parseStopTimes M loc feed)) = Routes feed"
  "Services (fst (parseStopTimes M loc feed)) = Services feed"
  "FareAttributes (fst (parseStopTimes M loc feed)) = FareAttributes feed"
  "Shapes (fst (parseStopTimes M loc feed)) = Shapes feed"
  "Transfers (fst (parseStopTimes M loc feed)) = Transfers feed"
  "FeedInfos (fst (parseStopTimes M loc feed)) = FeedInfos feed"
  using parseStopTimes_frame [of M loc feed] by auto

lemma checkStopTimes_keeps:
  "opts (fst (checkStopTimes M ord feed)) = opts feed"
  "Agencies (fst (checkStopTimes M ord feed)) = Agencies feed"
  "Stops (fst (checkStopTimes M ord feed)) = Stops feed"
  "Routes (fst (checkStopTimes M ord feed)) = Routes feed"
  "Services (fst (checkStopTimes M ord feed)) = Services feed"
  "FareAttributes (fst (checkStopTimes M ord feed)) = FareAttributes feed"
  "Shapes (fst (checkStopTimes M ord feed)) = Shapes feed"
  "Transfers (fst (checkStopTimes M ord feed)) = Transfers feed"
  "FeedInfos (fst (checkStopTimes M ord feed)) = FeedInfos feed"
  using checkStopTimes_frame [of M ord feed] by auto

lemma parseFareAttributes_keeps:
  "opts (fst (parseFareAttributes M loc feed)) = opts feed"
  "Agencies (fst (parseFareAttributes M loc feed)) = Agencies feed"
  "Stops (fst (parseFareAttributes M loc feed)) = Stops feed"
  "Routes (fst (parseFareAttributes M loc feed)) = Routes feed"
  "Trips (fst (parseFareAttributes M loc feed)) = Trips feed"
  "Services (fst (parseFareAttributes M loc feed)) = Services feed"
  "Shapes (fst (parseFareAttributes M loc feed)) = Shapes feed"
  "Transfers (fst (parseFareAttributes M loc feed)) = Transfers feed"
  "FeedInfos (fst (parseFareAttributes M loc feed)) = FeedInfos feed"
  using parseFareAttributes_frame [of M loc feed] by auto

lemma parseFareAttributeRules_keeps:
  "opts (fst (parseFareAttributeRules M loc feed)) = opts feed"
  "Agencies (fst (parseFareAttributeRules M loc feed)) = Agencies feed"
  "Stops (fst (parseFareAttributeRules M loc feed)) = Stops feed"
  "Routes (fst (parseFareAttributeRules M loc feed)) = Routes feed"
  "Trips (fst (parseFareAttributeRules M loc feed)) = Trips feed"
  "Services (fst (parseFareAttributeRules M loc feed)) = Services feed"
  "Shapes (fst (parseFareAttributeRules M loc feed)) = Shapes feed"
  "Transfers (fst (parseFareAttributeRules M loc feed)) = Transfers feed"
  "FeedInfos (fst (parseFareAttributeRules M loc feed)) = FeedInfos feed"
  using parseFareAttributeRules_frame [of M loc feed] by auto

lemma parseFrequencies_keeps:
  "opts (fst (parseFrequencies M loc feed)) = opts feed"
  "Agencies (fst (parseFrequencies M loc feed)) = Agencies feed"
  "Stops (fst (parseFrequencies M loc feed)) = Stops feed"
  "Routes (fst (parseFrequencies M loc feed)) = Routes feed"
  "Services (fst (parseFrequencies M loc feed)) = Services feed"
  "FareAttributes (fst (parseFrequencies M loc feed)) = FareAttributes feed"
  "Shapes (fst (parseFrequencies M loc feed)) = Shapes feed"
  "Transfers (fst (parseFrequencies M loc feed)) = Transfers feed"
  "FeedInfos (fst (parseFrequencies M loc feed)) = FeedInfos feed"
  using parseFrequencies_frame [of M loc feed] by auto

lemma parseTransfers_keeps:
  "opts (fst (parseTransfers M loc feed)) = opts feed"
  "Agencies (fst (parseTransfers M loc feed)) = Agencies feed"
  "Stops (fst (parseTransfers M loc feed)) = Stops feed"
  "Routes (fst (parseTransfers M loc feed)) = Routes feed"
  "Trips (fst (parseTransfers M loc feed)) = Trips feed"
  "Services (fst (parseTransfers M loc feed)) = Services feed"
  "FareAttributes (fst (parseTransfers M loc feed)) = FareAttributes feed"
  "Shapes (fst (parseTransfers M loc feed)) = Shapes feed"
  "FeedInfos (fst (parseTransfers M loc feed)) = FeedInfos feed"
  using parseTransfers_frame [of M loc feed] by auto

lemmas stage_keeps =
  parseAgencies_keeps parseFeedInfos_keeps parseStops_keeps parseShapes_keeps checkShapes_keeps
  parseRoutes_keeps parseCalendar_keeps parseCalendarDates_keeps parseTrips_keeps
  parseStopTimes_keeps checkStopTimes_keeps parseFareAttributes_keeps
  parseFareAttributeRules_keeps parseFrequencies_keeps parseTransfers_keeps

text \<open>The field of the feed that a block writes.\<close>

datatype field =
  FAgencies | FStops | FRoutes | FTrips | FServices | FFareAttributes | FShapes | FTransfers
| FFeedInfos

fun field_of :: "step \<Rightarrow> field" where
  "field_of ParseAgencies = FAgencies"
| "field_of ParseFeedInfos = FFeedInfos"
| "field_of ParseStops = FStops"
| "field_of ParseShapes = FShapes"
| "field_of CheckShapes = FShapes"
| "field_of ParseRoutes = FRoutes"
| "field_of ParseCalendar = FServices"
| "field_of ParseCalendarDates = FServices"
| "field_of ParseTrips = FTrips"
| "field_of ParseStopTimes = FTrips"
| "field_of CheckStopTimes = FTrips"
| "field_of ParseFareAttributes = FFareAttributes"
| "field_of ParseFareAttributeRules = FFareAttributes"
| "field_of ParseFrequencies = FTrips"
| "field_of ParseTransfers = FTransfers"

lemma run_step_keeps:
  "opts (fst (run_step M ord loc s feed)) = opts feed"
  "field_of s \<noteq> FAgencies \<Longrightarrow> Agencies (fst (run_step M ord loc s feed)) = Agencies feed"
  "field_of s \<noteq> FStops \<Longrightarrow> Stops (fst (run_step M ord loc s feed)) = Stops feed"
  "field_of s \<noteq> FRoutes \<Longrightarrow> Routes (fst (run_step M ord loc s feed)) = Routes feed"
  "field_of s \<noteq> FTrips \<Longrightarrow> Trips (fst (run_step M ord loc s feed)) = Trips feed"
  "field_of s \<noteq> FServices \<Longrightarrow> Services (fst (run_step M ord loc s feed)) = Services feed"
  "field_of s \<noteq> FFareAttributes \<Longrightarrow> FareAttributes (fst (run_step M ord loc s feed)) = FareAttributes feed"
  "field_of s \<noteq> FShapes \<Longrightarrow> Shapes (fst (run_step M ord loc s feed)) = Shapes feed"
  "field_of s \<noteq> FTransfers \<Longrightarrow> Transfers (fst (run_step M ord loc s feed)) = Transfers feed"
  "field_of s \<noteq> FFeedInfos \<Longrightarrow> FeedInfos (fst (run_step M ord loc s feed)) = FeedInfos feed"
  by (cases s; simp add: returned_def stage_keeps)+

section \<open>Parent stations\<close>

lemma run_steps_invariant:
  assumes "P feed"
    and "\<And>s f. s \<in> set steps \<Longrightarrow> P f \<Longrightarrow> P (fst (run_step M ord loc s f))"
  shows "P (fst (run_steps M ord loc steps feed))"
  using assms
proof (induction steps arbitrary: feed)
  case Nil
  then show ?case by simp
next
  case (Cons b steps)
  obtain f1 e1 where b: "run_step M ord loc b feed = (f1, e1)" by (cases "run_step M ord loc b feed")
  from Cons.prems(2) [of b feed] Cons.prems(1) b have P1: "P f1" by simp
  from Cons.IH [of f1] P1 Cons.prems(2) have "P (fst (run_steps M ord loc steps f1))" by simp
  with b P1 show ?case by (auto split: prod.splits)
qed

lemma run_steps_success:
  assumes "run_steps M ord loc (s # rest) feed = (feed', Return None, d)"
  shows "\<exists>f. run_step M ord loc s feed = (f, Return None)
             \<and> (\<exists>d'. run_steps M ord loc rest f = (feed', Return None, d'))"
  using assms by (auto split: prod.splits if_splits)

text \<open>The parent of the stop in a slot, and whether a key holds a stop.\<close>

definition parent_of_slot :: "'x Stop_scheme option \<Rightarrow> string option" where
  "parent_of_slot slot = (case slot of None \<Rightarrow> None | Some stop \<Rightarrow> Parent_station stop)"

definition holds_stop :: "'x Stop_scheme go_map \<Rightarrow> string \<Rightarrow> bool" where
  "holds_stop stops k = (case map_of stops k of Some (Some stop) \<Rightarrow> True | _ \<Rightarrow> False)"

text \<open>Every parent link in the table leads to a stop in the table.\<close>

definition parents_present :: "'x Stop_scheme go_map \<Rightarrow> bool" where
  "parents_present stops =
     (\<forall>(k, slot) \<in> set stops.
        case parent_of_slot slot of None \<Rightarrow> True | Some pid \<Rightarrow> holds_stop stops pid)"

text \<open>
  The comment in \<^verbatim>\<open>parseStops\<close> on the default branch, "the default value nil has already
  be written above", as a property of the materializer: a stop comes without a parent
  link.
\<close>

definition creates_unlinked :: "'x materializers \<Rightarrow> bool" where
  "creates_unlinked M =
     (\<forall>rec opt stop. createStop M rec opt = Inr stop \<longrightarrow> Parent_station stop = None)"

definition linked :: "'x Stop_scheme go_map \<Rightarrow> bool" where
  "linked stops =
     (distinct (map fst stops)
      \<and> (\<forall>k stop pid. map_of stops k = Some (Some stop) \<longrightarrow> Parent_station stop = Some pid
            \<longrightarrow> holds_stop stops pid))"

lemma linked_parents_present: "linked stops \<Longrightarrow> parents_present stops"
  by (auto simp: linked_def parents_present_def parent_of_slot_def split: option.splits)

definition unlinked :: "'x Stop_scheme go_map \<Rightarrow> bool" where
  "unlinked stops =
     (distinct (map fst stops)
      \<and> (\<forall>k stop. map_of stops k = Some (Some stop) \<longrightarrow> Parent_station stop = None))"

lemma unlinked_linked: "unlinked stops \<Longrightarrow> linked stops"
  by (simp add: unlinked_def linked_def)

lemma unlinked_update:
  "unlinked stops \<Longrightarrow> Parent_station stop = None \<Longrightarrow> unlinked (AList.update k (Some stop) stops)"
  by (auto simp: unlinked_def distinct_update update_conv')

lemma link_parent_stations_linked:
  "linked stops \<Longrightarrow> link_parent_stations opt pairs stops = (stops', None) \<Longrightarrow> linked stops'"
proof (induction pairs arbitrary: stops)
  case Nil
  then show ?case by simp
next
  case (Cons pair pairs)
  obtain stop_id pid where pair: "pair = (stop_id, pid)" by (cases pair)
  show ?case
  proof (cases "map_of stops pid")
    case None
    have "set_Parent_station stop_id pstop (AList.delete stop_id stops) = None" for pstop
      by (simp add: set_Parent_station_def delete_conv')
    with Cons.prems None pair Cons.IH [of stops] show ?thesis
      by (auto simp: Let_def split: if_splits)
  next
    case (Some slot)
    define pstop where "pstop = (case slot of Some p \<Rightarrow> Some pid | None \<Rightarrow> None)"
    from Cons.prems(2) Some pair
    obtain stops2 where set: "set_Parent_station stop_id pstop stops = Some stops2"
      and rest: "link_parent_stations opt pairs stops2 = (stops', None)"
      by (auto simp: Let_def pstop_def split: option.splits)
    from set obtain stop where stop: "map_of stops stop_id = Some (Some stop)"
      and stops2: "stops2 = AList.update stop_id (Some (stop\<lparr>Parent_station := pstop\<rparr>)) stops"
      by (auto simp: set_Parent_station_def split: option.splits)
    have "linked stops2"
      using Cons.prems(1) Some stop
      by (auto simp: linked_def stops2 distinct_update update_conv' holds_stop_def pstop_def
               split: option.splits if_splits)
    from Cons.IH [OF this rest] show ?thesis .
  qed
qed

lemma parseStops_linked:
  assumes "creates_unlinked M" "Stops feed = []" "parseStops M ord loc feed = (feed', None)"
  shows "linked (Stops feed')"
proof (cases "getFile loc ''stops.txt''")
  case None
  with assms(3) show ?thesis by (simp add: parseStops_def)
next
  case (Some f)
  let ?loop = "for_each_record
                  (\<lambda>(feed, parentStopIds) rec.
                     case createStop M rec (opts feed) of
                       Inl e \<Rightarrow> ((feed, parentStopIds), Some e)
                     | Inr stop \<Rightarrow>
                         ((feed\<lparr>Stops := AList.update (Stop.Id stop) (Some stop) (Stops feed)\<rparr>,
                           (case rec ''parent_station'' of
                              Some v \<Rightarrow>
                                if length v > 0 then AList.update (Stop.Id stop) v parentStopIds
                                else parentStopIds
                            | None \<Rightarrow> parentStopIds)), None))
                  (DropErroneous (opts feed)) (Lines f) (feed, [])"
  have "unlinked (Stops (fst (fst ?loop)))"
  proof (rule for_each_record_invariant [where P = "\<lambda>s. unlinked (Stops (fst s))"], goal_cases)
    case 1
    from assms(2) show ?case by (simp add: unlinked_def)
  next
    case (2 s rec)
    with assms(1) show ?case
      by (cases s) (auto simp: unlinked_update creates_unlinked_def split: sum.splits)
  qed
  then have "linked (Stops (fst (fst ?loop)))" by (rule unlinked_linked)
  with assms(3) show ?thesis
    by (auto simp: parseStops_def Some recovered_def split: prod.splits option.splits
             dest: link_parent_stations_linked)
qed

lemma run_steps_split:
  assumes "run_steps M ord loc (xs @ ys) feed = (feed', Return None, d)"
  shows "\<exists>f d1 d2. run_steps M ord loc xs feed = (f, Return None, d1)
                  \<and> run_steps M ord loc ys f = (feed', Return None, d2)"
  using assms
proof (induction xs arbitrary: feed d)
  case Nil
  then show ?case by simp
next
  case (Cons x xs)
  from Cons.prems obtain f1 d' where x: "run_step M ord loc x feed = (f1, Return None)"
    and rest: "run_steps M ord loc (xs @ ys) f1 = (feed', Return None, d')"
    using run_steps_success [of M ord loc x "xs @ ys" feed feed' d] by auto
  from Cons.IH [OF rest] x show ?case by auto
qed

lemma run_steps_established:
  assumes run: "run_steps M ord loc (before @ s # after) feed = (feed', Return None, d)"
    and init: "I feed"
    and before: "\<And>t f. t \<in> set before \<Longrightarrow> I f \<Longrightarrow> I (fst (run_step M ord loc t f))"
    and at: "\<And>f f'. I f \<Longrightarrow> run_step M ord loc s f = (f', Return None) \<Longrightarrow> Q f'"
    and after: "\<And>t f. t \<in> set after \<Longrightarrow> Q f \<Longrightarrow> Q (fst (run_step M ord loc t f))"
  shows "Q feed'"
proof -
  from run_steps_split [OF run] obtain f d1 d2
    where xs: "run_steps M ord loc before feed = (f, Return None, d1)"
      and ys: "run_steps M ord loc (s # after) f = (feed', Return None, d2)"
    by blast
  from run_steps_invariant [of I feed before M ord loc, OF init before] xs have "I f" by simp
  from run_steps_success [OF ys] obtain f' d'
    where s: "run_step M ord loc s f = (f', Return None)"
      and rest: "run_steps M ord loc after f' = (feed', Return None, d')"
    by blast
  from at [OF \<open>I f\<close> s] have "Q f'" .
  from run_steps_invariant [of Q f' after M ord loc, OF this after] rest show ?thesis by simp
qed

text \<open>
  C8, amended: in a feed that a parse from an empty stop table returns with \<^verbatim>\<open>nil\<close>, with a
  materializer that creates stops without a parent link, the parent link of every stop
  is absent or leads to a stop of the same feed. (It may lead to the stop itself.)
\<close>

theorem Parse_parents_present:
  assumes "creates_unlinked M" and "Stops feed = []"
    and "Parse M ord loc feed = (feed', Return None)"
  shows "parents_present (Stops feed')"
proof -
  from assms(3) obtain d where run: "run_steps M ord loc all_steps feed = (feed', Return None, d)"
    by (auto simp: Parse_def Parse_run_def split: prod.splits)
  have steps: "all_steps = [ParseAgencies, ParseFeedInfos] @ ParseStops #
      [ParseShapes, CheckShapes, ParseRoutes, ParseCalendar, ParseCalendarDates, ParseTrips,
       ParseStopTimes, CheckStopTimes, ParseFareAttributes, ParseFareAttributeRules,
       ParseFrequencies, ParseTransfers]"
    by (simp add: all_steps_def)
  have "linked (Stops feed')"
  proof (rule run_steps_established [OF run [unfolded steps],
        where I = "\<lambda>f. Stops f = []" and Q = "\<lambda>f. linked (Stops f)"], goal_cases)
    case 1
    show ?case by (rule assms(2))
  next
    case (2 t f)
    then have "field_of t \<noteq> FStops" by auto
    with 2 show ?case by (simp add: run_step_keeps del: run_step.simps)
  next
    case (3 f f')
    then show ?case using parseStops_linked [OF assms(1), of f ord loc f']
      by (auto simp: returned_def prod_eq_iff)
  next
    case (4 t f)
    then have "field_of t \<noteq> FStops" by auto
    with 4 show ?case by (simp add: run_step_keeps del: run_step.simps)
  qed
  then show ?thesis by (rule linked_parents_present)
qed

theorem Parse_parents_present_witness:
  "creates_unlinked example_materializers \<and> Stops (NewFeed :: unit Feed) = []
   \<and> Parse example_materializers id
        (directory_with_stops (one_row (stop_with_parent ''S'' ''S''))) NewFeed
      = (NewFeed\<lparr>Stops := [(''S'', Some \<lparr>Stop.Id = ''S'', Parent_station = Some ''S''\<rparr>)]\<rparr>,
         Return None)
   \<and> parents_present [(''S'', Some \<lparr>Stop.Id = ''S'', Parent_station = Some ''S''\<rparr>)]"
proof -
  have unlinked: "creates_unlinked example_materializers"
    by (auto simp: creates_unlinked_def example_materializers_def id_of_def split: option.splits)
  have empty: "Stops (NewFeed :: unit Feed) = []" by (simp add: NewFeed_def)
  have run: "Parse example_materializers id
        (directory_with_stops (one_row (stop_with_parent ''S'' ''S''))) NewFeed
      = (NewFeed\<lparr>Stops := [(''S'', Some \<lparr>Stop.Id = ''S'', Parent_station = Some ''S''\<rparr>)]\<rparr>,
         Return None)"
    by (simp add: parse_eval)
  from Parse_parents_present [OF unlinked empty run] unlinked empty run
  show ?thesis by simp
qed

text \<open>
  C8 as stated fails: a stop whose \<^verbatim>\<open>parent_station\<close> is its own id is found in the table
  by the second loop of \<^verbatim>\<open>parseStops\<close> and becomes its own parent; the parse returns \<^verbatim>\<open>nil\<close>.
\<close>

theorem Parse_links_stop_to_itself:
  "Parse example_materializers id
        (directory_with_stops (one_row (stop_with_parent ''S'' ''S''))) NewFeed
      = (NewFeed\<lparr>Stops := [(''S'', Some \<lparr>Stop.Id = ''S'', Parent_station = Some ''S''\<rparr>)]\<rparr>,
         Return None)"
  by (simp add: parse_eval)

text \<open>
  C3: with \<^verbatim>\<open>DropErroneous\<close> alone, a stops file whose one stop \<^verbatim>\<open>S1\<close> names the parent \<^verbatim>\<open>P\<close>
  that no stop has. The second loop of \<^verbatim>\<open>parseStops\<close> deletes \<^verbatim>\<open>S1\<close> and goes on to
  \<^verbatim>\<open>feed.Stops[id].Parent_station = pstop\<close>, an assignment through \<^verbatim>\<open>nil\<close>; the panic is
  recovered, and the parse returns it as a \<^verbatim>\<open>ParseError\<close>.
\<close>

theorem Parse_drop_unknown_parent_fails:
  "Parse example_materializers id
        (directory_with_stops (one_row (stop_with_parent ''S1'' ''P'')))
        (SetParseOpts NewFeed drop_only)
      = (SetParseOpts NewFeed drop_only,
         Return (Some (ParseError ''stops.txt'' 3 nil_dereference)))"
  by (simp add: parse_eval drop_only_def)

section \<open>Dry runs\<close>
























































end
